theory Spec2Isabelle
  imports Complex_Main "HOL-Library.Log_Nat"
begin

section \<open>Strings and numbers of the host language\<close>

text \<open>
  A JavaScript string is a sequence of UTF-16 code units; it is read as the list of their
  numbers. \<open>js\<close> gives the string of an ASCII literal, \<open>cu\<close> the code unit of an ASCII
  character; a glyph outside ASCII that the source writes in a literal is written out as
  its code units. \<open>length\<close>, \<open>includes\<close>, \<open>replace\<close> and \<open>trim\<close> then count and compare what
  the host counts and compares.
\<close>

type_synonym jsstring = "nat list"

definition js :: "string \<Rightarrow> jsstring" where
  "js s = map of_char s"

definition cu :: "char \<Rightarrow> nat" where
  "cu c = of_char c"

definition is_digit :: "nat \<Rightarrow> bool" where
  \<comment> \<open>the class \<open>\d\<close>: the digits 0 to 9\<close>
  "is_digit c = (48 \<le> c \<and> c \<le> 57)"

definition is_space :: "nat \<Rightarrow> bool" where
  \<comment> \<open>the class \<open>\s\<close>, which is also what \<open>trim\<close> and \<open>parseFloat\<close> skip: the white space and
      the line terminators of the language (tab, line feed, vertical tab, form feed,
      carriage return, space, no-break space, the Unicode space separators, line and
      paragraph separator, byte order mark)\<close>
  "is_space c =
     (c \<in> {0x9, 0xA, 0xB, 0xC, 0xD, 0x20, 0xA0, 0x1680, 0x2028, 0x2029, 0x202F, 0x205F,
            0x3000, 0xFEFF}
      \<or> (0x2000 \<le> c \<and> c \<le> 0x200A))"

definition digit_val :: "nat \<Rightarrow> nat" where
  "digit_val c = c - 48"

definition digit_char :: "nat \<Rightarrow> nat" where
  "digit_char d = 48 + d"

definition nat_of_digits :: "jsstring \<Rightarrow> nat" where
  \<comment> \<open>the number a string of decimal digits denotes\<close>
  "nat_of_digits ds = foldl (\<lambda>n c. 10 * n + digit_val c) 0 ds"

fun show_nat :: "nat \<Rightarrow> jsstring" where
  "show_nat n = (if n < 10 then [digit_char n] else show_nat (n div 10) @ [digit_char (n mod 10)])"

declare show_nat.simps [simp del]

definition show_int :: "int \<Rightarrow> jsstring" where
  \<comment> \<open>an integer below \<open>10 ^ 21\<close> inside a template literal\<close>
  "show_int i = (if i < 0 then cu CHR ''-'' # show_nat (nat (- i)) else show_nat (nat i))"

fun starts_with :: "'a list \<Rightarrow> 'a list \<Rightarrow> bool" where
  "starts_with s [] = True"
| "starts_with [] (k # ks) = False"
| "starts_with (c # s) (k # ks) = (c = k \<and> starts_with s ks)"

fun str_includes :: "'a list \<Rightarrow> 'a list \<Rightarrow> bool" where
  \<comment> \<open>\<open>String.prototype.includes\<close>\<close>
  "str_includes [] k = (k = [])"
| "str_includes (c # s) k = (starts_with (c # s) k \<or> str_includes s k)"

definition trim :: "jsstring \<Rightarrow> jsstring" where
  \<comment> \<open>\<open>String.prototype.trim\<close>\<close>
  "trim s = rev (dropWhile is_space (rev (dropWhile is_space s)))"

fun replace_first :: "'a list \<Rightarrow> 'a list \<Rightarrow> 'a list \<Rightarrow> 'a list" where
  \<comment> \<open>\<open>s.replace(pat, rep)\<close> with a string pattern: the first occurrence only\<close>
  "replace_first pat rep [] = (if pat = [] then rep else [])"
| "replace_first pat rep (c # s) =
     (if starts_with (c # s) pat then rep @ drop (length pat) (c # s)
      else c # replace_first pat rep s)"

subsection \<open>The problem pattern\<close>

text \<open>
  \<open>problem.match(/(\d+)\s*([+\-])\s*(\d+)/)\<close> finds the leftmost match. At a fixed start
  the greedy choice is the only one that can succeed: a shorter run of digits or of
  white space is followed by a character of the same class, which neither the next class
  nor the operator accepts. So a match at a start is: the longest run of digits (not
  empty), the white space after it, one operator character, the white space after it, the
  longest run of digits (not empty). The operator class is a parameter, since the two
  graders use two classes.
\<close>

definition match_at :: "nat list \<Rightarrow> jsstring \<Rightarrow> (jsstring \<times> nat \<times> jsstring) option" where
  "match_at ops s =
     (let ds1 = takeWhile is_digit s in
      if ds1 = [] then None
      else
        (case dropWhile is_space (dropWhile is_digit s) of
           [] \<Rightarrow> None
         | c # r \<Rightarrow>
             if c \<in> set ops then
               (let ds2 = takeWhile is_digit (dropWhile is_space r) in
                if ds2 = [] then None else Some (ds1, c, ds2))
             else None))"

fun regex_match :: "nat list \<Rightarrow> jsstring \<Rightarrow> (jsstring \<times> nat \<times> jsstring) option" where
  "regex_match ops [] = None"
| "regex_match ops (c # s) =
     (case match_at ops (c # s) of
        Some m \<Rightarrow> Some m
      | None \<Rightarrow> regex_match ops s)"

definition plain_problem :: "nat \<Rightarrow> nat \<Rightarrow> nat \<Rightarrow> jsstring" where
  \<comment> \<open>the problem text \<open>"a op b"\<close>: two decimal numbers and an operator, one space around it\<close>
  "plain_problem a operator b = show_nat a @ js '' '' @ [operator] @ js '' '' @ show_nat b"

subsection \<open>Numbers\<close>

text \<open>
  A number of the host is an IEEE 754 double: a rational, or one of the three values that
  are not finite (the sign of zero plays no part in what follows and is not kept).
  \<open>to_double x\<close> is the number the host computes where the exact result is \<open>x\<close>: the
  nearest double, the one with the even significand when two are equally near, infinite
  from \<open>2 ^ 1024 - 2 ^ 970\<close> on. With \<open>e = exponent_of |x|\<close>, the doubles around \<open>x\<close> are the
  multiples of \<open>2 ^ (e - 52)\<close>, or of \<open>2 ^ (- 1074)\<close> below the normal range.
\<close>

datatype jsnum = Num rat | PosInfinity | NegInfinity | NaN

definition exponent_of :: "rat \<Rightarrow> int" where
  \<comment> \<open>for \<open>0 < x\<close>, the \<open>e\<close> with \<open>2 ^ e \<le> x < 2 ^ (e + 1)\<close>\<close>
  "exponent_of x =
     (if 1 \<le> x then bitlen \<lfloor>x\<rfloor> - 1
      else - bitlen (\<lceil>1 / x\<rceil> - 1))"

definition round_half_even :: "rat \<Rightarrow> int" where
  "round_half_even q =
     (let f = \<lfloor>q\<rfloor>; r = q - of_int f in
      if r < 1 / 2 then f
      else if 1 / 2 < r then f + 1
      else if even f then f else f + 1)"

definition to_double :: "rat \<Rightarrow> jsnum" where
  "to_double x =
     (if x = 0 then Num 0
      else
        (let q = max (exponent_of \<bar>x\<bar> - 52) (- 1074);
             y = of_int (round_half_even (\<bar>x\<bar> / 2 powi q)) * 2 powi q in
         if 2 powi 1024 \<le> y then (if 0 < x then PosInfinity else NegInfinity)
         else Num (if x < 0 then - y else y)))"

fun js_neg :: "jsnum \<Rightarrow> jsnum" where
  "js_neg (Num x) = Num (- x)"
| "js_neg PosInfinity = NegInfinity"
| "js_neg NegInfinity = PosInfinity"
| "js_neg NaN = NaN"

fun js_add :: "jsnum \<Rightarrow> jsnum \<Rightarrow> jsnum" where
  "js_add NaN y = NaN"
| "js_add x NaN = NaN"
| "js_add (Num x) (Num y) = to_double (x + y)"
| "js_add PosInfinity NegInfinity = NaN"
| "js_add NegInfinity PosInfinity = NaN"
| "js_add PosInfinity y = PosInfinity"
| "js_add NegInfinity y = NegInfinity"
| "js_add (Num x) y = y"

definition js_sub :: "jsnum \<Rightarrow> jsnum \<Rightarrow> jsnum" where
  "js_sub x y = js_add x (js_neg y)"

definition js_sign :: "jsnum \<Rightarrow> int" where
  "js_sign x = (case x of Num q \<Rightarrow> (if q < 0 then - 1 else if q = 0 then 0 else 1)
      | PosInfinity \<Rightarrow> 1 | NegInfinity \<Rightarrow> - 1 | NaN \<Rightarrow> 0)"

definition js_inf :: "int \<Rightarrow> jsnum" where
  "js_inf sg = (if sg < 0 then NegInfinity else PosInfinity)"

fun js_mul :: "jsnum \<Rightarrow> jsnum \<Rightarrow> jsnum" where
  "js_mul NaN y = NaN"
| "js_mul x NaN = NaN"
| "js_mul (Num x) (Num y) = to_double (x * y)"
| "js_mul x y = (if js_sign x * js_sign y = 0 then NaN else js_inf (js_sign x * js_sign y))"

fun js_div :: "jsnum \<Rightarrow> jsnum \<Rightarrow> jsnum" where
  "js_div NaN y = NaN"
| "js_div x NaN = NaN"
| "js_div (Num x) (Num y) =
     (if y = 0 then (if x = 0 then NaN else js_inf (js_sign (Num x))) else to_double (x / y))"
| "js_div (Num x) y = Num 0"
| "js_div x (Num y) = js_inf (js_sign x * (if y < 0 then - 1 else 1))"
| "js_div x y = NaN"

fun js_abs :: "jsnum \<Rightarrow> jsnum" where
  "js_abs (Num x) = Num \<bar>x\<bar>"
| "js_abs PosInfinity = PosInfinity"
| "js_abs NegInfinity = PosInfinity"
| "js_abs NaN = NaN"

fun js_lt :: "jsnum \<Rightarrow> jsnum \<Rightarrow> bool" where
  \<comment> \<open>\<open>x < y\<close>: false as soon as one side is \<open>NaN\<close>\<close>
  "js_lt NaN y = False"
| "js_lt x NaN = False"
| "js_lt (Num x) (Num y) = (x < y)"
| "js_lt x PosInfinity = (x \<noteq> PosInfinity)"
| "js_lt NegInfinity y = (y \<noteq> NegInfinity)"
| "js_lt x y = False"

definition js_eq :: "jsnum \<Rightarrow> jsnum \<Rightarrow> bool" where
  \<comment> \<open>\<open>x === y\<close> on numbers: \<open>NaN\<close> equals nothing\<close>
  "js_eq x y = (x \<noteq> NaN \<and> x = y)"

definition pow10 :: "int \<Rightarrow> rat" where
  "pow10 e = 10 powi e"

text \<open>
  \<open>parseFloat\<close> skips leading white space and reads the longest prefix that is a decimal
  literal: a sign, then \<open>Infinity\<close> or digits with an optional fraction and an optional
  exponent. Its value is the double nearest to what the literal denotes. It returns \<open>NaN\<close>
  when no prefix is a literal; it never throws.
\<close>

definition parse_exponent :: "jsstring \<Rightarrow> int" where
  \<comment> \<open>the value of an exponent part at the head of the string, 0 when there is none\<close>
  "parse_exponent s =
     (case s of
        [] \<Rightarrow> 0
      | c # r \<Rightarrow>
          if c = cu CHR ''e'' \<or> c = cu CHR ''E'' then
            (case r of
               [] \<Rightarrow> 0
             | sg # r' \<Rightarrow>
                 if sg = cu CHR ''+'' \<and> takeWhile is_digit r' \<noteq> [] then
                   int (nat_of_digits (takeWhile is_digit r'))
                 else if sg = cu CHR ''-'' \<and> takeWhile is_digit r' \<noteq> [] then
                   - int (nat_of_digits (takeWhile is_digit r'))
                 else if takeWhile is_digit r \<noteq> [] then
                   int (nat_of_digits (takeWhile is_digit r))
                 else 0)
          else 0)"

definition parse_unsigned :: "jsstring \<Rightarrow> jsnum" where
  "parse_unsigned s =
     (if starts_with s (js ''Infinity'') then PosInfinity
      else
        (let ip = takeWhile is_digit s; r = dropWhile is_digit s in
         case r of
           [] \<Rightarrow> (if ip = [] then NaN else to_double (of_nat (nat_of_digits ip)))
         | c # r2 \<Rightarrow>
             if c = cu CHR ''.'' then
               (let fp = takeWhile is_digit r2; r3 = dropWhile is_digit r2 in
                if ip = [] \<and> fp = [] then NaN
                else to_double ((of_nat (nat_of_digits ip)
                                 + of_nat (nat_of_digits fp) / 10 ^ length fp)
                                * pow10 (parse_exponent r3)))
             else if ip = [] then NaN
             else to_double (of_nat (nat_of_digits ip) * pow10 (parse_exponent r))))"

definition parseFloat :: "jsstring \<Rightarrow> jsnum" where
  "parseFloat s =
     (case dropWhile is_space s of
        [] \<Rightarrow> NaN
      | c # r \<Rightarrow>
          if c = cu CHR ''-'' then js_neg (parse_unsigned r)
          else if c = cu CHR ''+'' then parse_unsigned r
          else parse_unsigned (c # r))"

section \<open>The validation engine\<close>

datatype error = Could_not_parse_math_problem | Unknown_operator nat

datatype outcome = Correct | Incorrect | Needs_guidance

text \<open>
  The three graders return object literals with a common core and a few extra fields; an
  extra field that a literal does not write is \<open>None\<close>. \<open>correct_answer\<close> is written by the
  practice grader only.
\<close>

record validation_result =
  result :: outcome
  is_correct :: bool
  feedback :: jsstring
  hint :: jsstring
  mistake_type :: "jsstring option"
  guidance_level :: jsstring
  problem_completed :: "bool option"
  final_answer :: "int option"
  remaining_steps :: "int option"
  correct_answer :: "jsnum option"

definition glyph_party :: jsstring where
  "glyph_party = [0xD83C, 0xDF89]"

definition base_result :: "outcome \<Rightarrow> bool \<Rightarrow> jsstring \<Rightarrow> jsstring \<Rightarrow> jsstring option \<Rightarrow> jsstring
    \<Rightarrow> validation_result" where
  "base_result r ok fb h mt gl =
     \<lparr> result = r, is_correct = ok, feedback = fb, hint = h, mistake_type = mt,
       guidance_level = gl, problem_completed = None, final_answer = None,
       remaining_steps = None, correct_answer = None \<rparr>"

subsection \<open>The sequential-step grader\<close>

text \<open>
  The numbers of this grader are the integers that \<open>parseInt\<close> reads, the steps the caller
  passes, and their sums with \<open>1\<close> and \<open>- 1\<close>. They are read as integers: the host's
  arithmetic on them is the integers' as long as every value met is a safe integer
  (\<open>safe_integer\<close>, of magnitude below \<open>2 ^ 53\<close>), and every statement about the grader is
  made within that range.
\<close>

definition safe_integer :: "int \<Rightarrow> bool" where
  \<comment> \<open>\<open>Number.isSafeInteger\<close>\<close>
  "safe_integer i = (\<bar>i\<bar> < 2 ^ 53)"

definition step_of :: "nat \<Rightarrow> int" where
  \<comment> \<open>\<open>operator === '+' ? 1 : -1\<close>\<close>
  "step_of operator = (if operator = cu CHR ''+'' then 1 else - 1)"

definition validateNumberLineStep ::
    "jsstring \<Rightarrow> jsstring \<Rightarrow> int list \<Rightarrow> int \<Rightarrow> error + validation_result" where
  "validateNumberLineStep problem operation current_steps proposed_step =
     (case regex_match (js ''+-'') problem of
        None \<Rightarrow> Inl Could_not_parse_math_problem
      | Some (m1, operator, m3) \<Rightarrow>
          (let firstNum = int (nat_of_digits m1);
               secondNum = int (nat_of_digits m3) in
           if length current_steps = 0 then
             (if proposed_step = firstNum then
                Inr (base_result Correct True
                  (js ''Perfect! You started at '' @ show_int firstNum @ js ''. Now let's count ''
                     @ (if operator = cu CHR ''+'' then js ''forward'' else js ''backward'') @ js ''!'')
                  (js ''Great start! Next, click on '' @ show_int (firstNum + step_of operator)
                     @ js ''.'')
                  None (js ''encouraging''))
              else
                Inr (base_result Incorrect False
                  (js ''Let's start at the first number: '' @ show_int firstNum)
                  (js ''Click on '' @ show_int firstNum @ js '' to begin the problem.'')
                  (Some (js ''wrong_starting_number'')) (js ''specific'')))
           else
             (let lastPosition = last current_steps;
                  expectedNext = lastPosition + step_of operator;
                  stepsTaken = int (length current_steps) - 1 in
              if proposed_step = expectedNext then
                (let remainingSteps = secondNum - stepsTaken - 1 in
                 if remainingSteps \<le> 0 then
                   (let finalAnswer =
                          firstNum + (if operator = cu CHR ''+'' then secondNum else - secondNum) in
                    Inr ((base_result Correct True
                       (glyph_party @ js '' Fantastic! You solved '' @ problem @ js '' = ''
                          @ show_int finalAnswer @ js ''!'')
                       (js ''Excellent work! You completed the problem step by step.'')
                       None (js ''celebration''))
                       \<lparr> problem_completed := Some True, final_answer := Some finalAnswer \<rparr>))
                 else
                   Inr ((base_result Correct True
                      (js ''Great! Keep going - '' @ show_int remainingSteps @ js '' more step''
                         @ (if remainingSteps > 1 then js ''s'' else []) @ js ''.'')
                      (js ''Perfect! Now click on '' @ show_int (expectedNext + step_of operator)
                         @ js ''.'')
                      None (js ''encouraging''))
                      \<lparr> remaining_steps := Some remainingSteps \<rparr>))
              else if operator = cu CHR ''+'' \<and> proposed_step > expectedNext then
                Inr (base_result Incorrect False
                  (js ''Slow down! Let's count one step at a time.'')
                  (js ''Try clicking on '' @ show_int expectedNext @ js '' instead of ''
                     @ show_int proposed_step @ js ''.'')
                  (Some (js ''skipping_numbers'')) (js ''gentle''))
              else if operator = cu CHR ''+'' \<and> proposed_step < lastPosition then
                Inr (base_result Incorrect False
                  (js ''For addition, we count forward (to the right)!'')
                  (js ''Click on '' @ show_int expectedNext @ js '' to continue counting forward.'')
                  (Some (js ''wrong_direction'')) (js ''specific''))
              else
                (let direction = (if operator = cu CHR ''+'' then js ''forward'' else js ''backward'') in
                 Inr (base_result Incorrect False
                   (js ''Not quite! Let's count '' @ direction @ js '' one number at a time.'')
                   (js ''Click on '' @ show_int expectedNext @ js '' to continue.'')
                   (Some (js ''incorrect_sequence'')) (js ''helpful''))))))"


subsection \<open>The final-answer grader\<close>

text \<open>
  \<open>validatePracticeStep\<close> reads \<open>user_input\<close> (a string) and \<open>step_number\<close> from its
  \<open>validation_data\<close>. The conversion of a number to text inside a template literal is the
  host's; it is the parameter \<open>to_string\<close>. The source wraps \<open>parseFloat\<close> in
  \<open>try\<close>/\<open>catch\<close>; the call is modelled with a result that can carry an exception, and
  \<open>parseFloat\<close> never produces one.
\<close>

datatype exn = Thrown

definition try_parseFloat :: "jsstring \<Rightarrow> exn + jsnum" where
  "try_parseFloat s = Inr (parseFloat s)"

definition practice_answer :: "nat \<Rightarrow> jsnum \<Rightarrow> jsnum \<Rightarrow> error + jsnum" where
  \<comment> \<open>the \<open>switch (operator)\<close>\<close>
  "practice_answer operator firstNum secondNum =
     (if operator = cu CHR ''+'' then Inr (js_add firstNum secondNum)
      else if operator = cu CHR ''-'' then Inr (js_sub firstNum secondNum)
      else if operator = cu CHR ''*'' then Inr (js_mul firstNum secondNum)
      else if operator = cu CHR ''/'' then Inr (js_div firstNum secondNum)
      else Inl (Unknown_operator operator))"

definition validatePracticeStep ::
    "(jsnum \<Rightarrow> jsstring) \<Rightarrow> jsstring \<Rightarrow> jsstring \<Rightarrow> jsstring \<Rightarrow> int \<Rightarrow> error + validation_result" where
  "validatePracticeStep to_string problem operation user_input step_number =
     (if user_input = [] \<or> trim user_input = [] then
        Inr (base_result Needs_guidance False
          (js ''Please enter your answer to continue.'')
          (js ''Take your time and think about the problem step by step.'')
          None (js ''gentle''))
      else
        (case try_parseFloat (trim user_input) of
           Inl _ \<Rightarrow>
             Inr (base_result Incorrect False
               (js ''Please enter a valid number.'')
               (js ''Make sure you're entering just the number, like '8' or '12'.'')
               (Some (js ''invalid_input'')) (js ''specific''))
         | Inr userAnswer \<Rightarrow>
             (case regex_match (js ''+-*/'') problem of
                None \<Rightarrow> Inl Could_not_parse_math_problem
              | Some (m1, operator, m3) \<Rightarrow>
                  (let firstNum = to_double (of_nat (nat_of_digits m1));
                       secondNum = to_double (of_nat (nat_of_digits m3)) in
                   case practice_answer operator firstNum secondNum of
                     Inl e \<Rightarrow> Inl e
                   | Inr correctAnswer \<Rightarrow>
                       if js_lt (js_abs (js_sub userAnswer correctAnswer)) (to_double (1 / 100)) then
                         Inr ((base_result Correct True
                            (glyph_party @ js '' Excellent! '' @ problem @ js '' = ''
                               @ to_string correctAnswer)
                            (js ''Great job! You solved it correctly!'')
                            None (js ''celebration''))
                            \<lparr> correct_answer := Some correctAnswer \<rparr>)
                       else if operator = cu CHR ''+''
                               \<and> (js_eq userAnswer firstNum \<or> js_eq userAnswer secondNum) then
                         Inr (base_result Incorrect False
                           (js ''You entered one of the numbers from the problem. For addition, we need to add them together!'')
                           (js ''Try adding '' @ to_string firstNum @ js '' + '' @ to_string secondNum
                              @ js ''. What do you get?'')
                           (Some (js ''not_adding'')) (js ''specific''))
                       else
                         Inr ((base_result Incorrect False
                            (js ''Not quite right. The correct answer is ''
                               @ to_string correctAnswer @ js ''.'')
                            (js ''Try working through '' @ problem @ js '' step by step.'')
                            (Some (js ''incorrect_calculation''))
                            (if step_number = 1 then js ''gentle'' else js ''specific''))
                            \<lparr> correct_answer := Some correctAnswer \<rparr>)))))"

section \<open>The rate limiter\<close>

text \<open>
  \<open>FrontendRateLimiter\<close> keeps the times of the admitted calls in a static array. The
  clock (\<open>Date.now()\<close>, in milliseconds) is an argument of each call, and each call
  returns its value with the new array.
\<close>

definition MAX_CALLS :: nat where
  "MAX_CALLS = 5"

definition WINDOW_MS :: int where
  "WINDOW_MS = 30000"

definition isAllowed :: "int \<Rightarrow> int list \<Rightarrow> bool \<times> int list" where
  "isAllowed now calls =
     (let calls1 = filter (\<lambda>timestamp. now - timestamp < WINDOW_MS) calls in
      if length calls1 \<ge> MAX_CALLS then (False, calls1)
      else (True, calls1 @ [now]))"

definition getRemainingCalls :: "int \<Rightarrow> int list \<Rightarrow> int \<times> int list" where
  "getRemainingCalls now calls =
     (let calls1 = filter (\<lambda>timestamp. now - timestamp < WINDOW_MS) calls in
      (max 0 (int MAX_CALLS - int (length calls1)), calls1))"

fun calls_at :: "int list \<Rightarrow> int list \<Rightarrow> bool list \<times> int list" where
  \<comment> \<open>a sequence of \<open>isAllowed\<close> calls at the given clock readings: the verdicts in order,
      and the array after the last\<close>
  "calls_at [] calls = ([], calls)"
| "calls_at (now # nows) calls =
     (let (ok, calls1) = isAllowed now calls;
          (oks, calls2) = calls_at nows calls1
      in (ok # oks, calls2))"

section \<open>The interruption classifier\<close>

text \<open>
  \<open>toLowerCase\<close> is the host's case mapping, a table of the Unicode standard; the
  classifier is given it as a parameter. The pattern of the last test carries the flag
  \<open>i\<close>: a letter of the pattern matches itself and its ASCII capital, and no character
  outside ASCII (the flag \<open>u\<close> is absent).
\<close>

definition DEMO_KEYWORDS :: "jsstring list" where
  "DEMO_KEYWORDS =
     map js [''continue'', ''resume'', ''next step'', ''keep going'',
             ''proceed'', ''go on'', ''demo'', ''demonstration'',
             ''show me'', ''let me see'', ''continue demo'']"

definition QUESTION_INDICATORS :: "jsstring list" where
  "QUESTION_INDICATORS =
     map js [''what'', ''how'', ''why'', ''when'', ''where'', ''who'',
             ''can you'', ''could you'', ''would you'', ''will you'',
             ''explain'', ''tell me'', ''help me'', ''?'']"

definition QUESTION_PREFIXES :: "jsstring list" where
  \<comment> \<open>the alternatives of \<open>/^(what|how|...|does)\s/i\<close>\<close>
  "QUESTION_PREFIXES =
     map js [''what'', ''how'', ''why'', ''when'', ''where'', ''who'', ''can'', ''could'',
             ''would'', ''will'', ''is'', ''are'', ''do'', ''does'']"

definition ignore_case :: "nat \<Rightarrow> nat" where
  \<comment> \<open>an ASCII capital becomes its small letter; nothing else changes\<close>
  "ignore_case c = (if 65 \<le> c \<and> c \<le> 90 then c + 32 else c)"

definition word_then_space :: "jsstring \<Rightarrow> jsstring \<Rightarrow> bool" where
  \<comment> \<open>the string begins with the word, in either case, and a white-space character
      follows it\<close>
  "word_then_space s w =
     (starts_with (map ignore_case s) w
      \<and> (case drop (length w) s of [] \<Rightarrow> False | c # _ \<Rightarrow> is_space c))"

definition isUserQuery :: "(jsstring \<Rightarrow> jsstring) \<Rightarrow> jsstring \<Rightarrow> bool" where
  "isUserQuery toLowerCase message =
     (let lowerMessage = trim (toLowerCase message) in
      if length lowerMessage < 3 then False
      else
        (let isDemoContinuation = list_ex (\<lambda>keyword. str_includes lowerMessage keyword) DEMO_KEYWORDS in
         if isDemoContinuation then False
         else
           (let isQuestion = list_ex (\<lambda>indicator. str_includes lowerMessage indicator)
                               QUESTION_INDICATORS;
                hasQuestionMark = str_includes lowerMessage (js ''?'');
                startsWithQuestion = list_ex (word_then_space lowerMessage) QUESTION_PREFIXES
            in isQuestion \<or> hasQuestionMark \<or> startsWithQuestion)))"

section \<open>The tool context\<close>

datatype ToolType = Number_line | Demonstrate_number_line | Practice_problem | Calculator

definition type_name :: "ToolType \<Rightarrow> jsstring" where
  \<comment> \<open>the jsstring a \<open>ToolType\<close> is\<close>
  "type_name t =
     (case t of
        Number_line \<Rightarrow> js ''number_line''
      | Demonstrate_number_line \<Rightarrow> js ''demonstrate_number_line''
      | Practice_problem \<Rightarrow> js ''practice_problem''
      | Calculator \<Rightarrow> js ''calculator'')"

record DemoState =
  currentStep :: nat
  nextStepDelay :: nat
  pauseReason :: "jsstring option"
  resumeAt :: "int option"

text \<open>
  The context stores the callbacks of a \<open>ToolConfig\<close> and never calls them: a callback is
  a name here, and an optional one may be absent. \<open>tool_type\<close> is the field \<open>type\<close>, and
  \<open>contextDemoPaused\<close> the context's own \<open>isDemoPaused\<close>.
\<close>

record ToolConfig =
  tool_type :: ToolType
  tool_props :: jsstring
  respond :: nat
  intermediate_callback :: "nat option"
  pause_callback :: "nat option"
  resume_callback :: "nat option"

record ToolContext =
  activeToolConfig :: "ToolConfig option"
  demoState :: "DemoState option"
  contextDemoPaused :: bool
  isChatBlocked :: bool
  toolCompletionCallbacks :: "jsstring \<rightharpoonup> nat"

text \<open>
  What \<open>pauseDemo\<close> and \<open>resumeDemo\<close> of the context do outside it is one call to the
  window-scoped control of the number line, when that control exists.
\<close>

datatype control_call = Control_pause jsstring | Control_resume

definition initial_context :: ToolContext where
  "initial_context =
     \<lparr> activeToolConfig = None, demoState = None, contextDemoPaused = False,
       isChatBlocked = False, toolCompletionCallbacks = Map.empty \<rparr>"

definition setActiveTool :: "ToolConfig option \<Rightarrow> ToolContext \<Rightarrow> ToolContext" where
  "setActiveTool config c = c \<lparr> activeToolConfig := config \<rparr>"

definition clearActiveTool :: "ToolContext \<Rightarrow> ToolContext" where
  "clearActiveTool c =
     c \<lparr> activeToolConfig := None, demoState := None, contextDemoPaused := False \<rparr>"

definition is_demonstration :: "ToolConfig option \<Rightarrow> bool" where
  \<comment> \<open>\<open>activeToolConfig?.type.includes('demonstrate')\<close>, read as a condition\<close>
  "is_demonstration config =
     (case config of
        None \<Rightarrow> False
      | Some cfg \<Rightarrow> str_includes (type_name (tool_type cfg)) (js ''demonstrate''))"

definition context_pauseDemo ::
    "jsstring \<Rightarrow> bool \<Rightarrow> ToolContext \<Rightarrow> ToolContext \<times> control_call list" where
  "context_pauseDemo reason has_control c =
     (if \<not> is_demonstration (activeToolConfig c) then (c, [])
      else (c \<lparr> contextDemoPaused := True \<rparr>,
            if has_control then [Control_pause reason] else []))"

definition context_resumeDemo :: "bool \<Rightarrow> ToolContext \<Rightarrow> ToolContext \<times> control_call list" where
  "context_resumeDemo has_control c =
     (if demoState c = None then (c, [])
      else (c \<lparr> contextDemoPaused := False \<rparr>,
            if has_control then [Control_resume] else []))"

definition getDemoState :: "ToolContext \<Rightarrow> DemoState option" where
  "getDemoState c = demoState c"

definition setChatBlocked :: "bool \<Rightarrow> ToolContext \<Rightarrow> ToolContext" where
  "setChatBlocked blocked c = c \<lparr> isChatBlocked := blocked \<rparr>"

definition registerToolCompletion :: "jsstring \<Rightarrow> nat \<Rightarrow> ToolContext \<Rightarrow> ToolContext" where
  "registerToolCompletion toolId callback c =
     c \<lparr> toolCompletionCallbacks := (toolCompletionCallbacks c)(toolId \<mapsto> callback) \<rparr>"

definition unregisterToolCompletion :: "jsstring \<Rightarrow> ToolContext \<Rightarrow> ToolContext" where
  "unregisterToolCompletion toolId c =
     c \<lparr> toolCompletionCallbacks := (toolCompletionCallbacks c)(toolId := None) \<rparr>"

text \<open>The states the provider can be in: its initial state, and what its operations make of one.\<close>

inductive reachable :: "ToolContext \<Rightarrow> bool" where
  reach_initial: "reachable initial_context"
| reach_setActiveTool: "reachable c \<Longrightarrow> reachable (setActiveTool config c)"
| reach_clearActiveTool: "reachable c \<Longrightarrow> reachable (clearActiveTool c)"
| reach_pauseDemo: "reachable c \<Longrightarrow> reachable (fst (context_pauseDemo reason has_control c))"
| reach_resumeDemo: "reachable c \<Longrightarrow> reachable (fst (context_resumeDemo has_control c))"
| reach_setChatBlocked: "reachable c \<Longrightarrow> reachable (setChatBlocked blocked c)"
| reach_register: "reachable c \<Longrightarrow> reachable (registerToolCompletion toolId callback c)"
| reach_unregister: "reachable c \<Longrightarrow> reachable (unregisterToolCompletion toolId c)"

definition demo_invariant :: "ToolContext \<Rightarrow> bool" where
  \<comment> \<open>no \<open>DemoState\<close> unless the active tool is a demonstration\<close>
  "demo_invariant c = (is_demonstration (activeToolConfig c) \<or> demoState c = None)"

section \<open>The number line and its demonstration\<close>

definition glyph_pin :: jsstring where
  "glyph_pin = [0xD83D, 0xDCCD]"

definition glyph_stop :: jsstring where
  "glyph_stop = [0xD83D, 0xDED1]"

definition glyph_play :: jsstring where
  "glyph_play = [0x25B6, 0xFE0F]"

definition glyph_point_left :: jsstring where
  "glyph_point_left = [0xD83D, 0xDC48]"

definition glyph_right :: jsstring where
  "glyph_right = [0x27A1, 0xFE0F]"

definition glyph_left :: jsstring where
  "glyph_left = [0x2B05, 0xFE0F]"

definition glyph_check :: jsstring where
  "glyph_check = [0x2705]"

definition parseNumbers :: "jsstring \<Rightarrow> (int \<times> int \<times> nat) option" where
  \<comment> \<open>\<open>{firstNumber, secondNumber, operator}\<close>, or \<open>null\<close>\<close>
  "parseNumbers problem_text =
     (if problem_text = [] then None
      else
        (case regex_match (js ''+-'') problem_text of
           None \<Rightarrow> None
         | Some (m1, _, m2) \<Rightarrow>
             Some (int (nat_of_digits m1), int (nat_of_digits m2),
                   if str_includes problem_text (js ''+'') then cu CHR ''+'' else cu CHR ''-'')))"

text \<open>
  The component is a function of its props and its state variables. A callback prop is
  recorded as given or not, and a call of it is an entry of \<open>outbox\<close>, the list of what the
  component has sent out, in order. A pending \<open>setTimeout\<close> is an entry of \<open>timers\<close>: its
  delay and what its callback will do, with the values the callback's closure holds.
  \<open>pauseReasonText\<close> is the state variable \<open>pauseReason\<close>. The state variables that only
  manual mode uses (\<open>currentStep\<close> and the validation feedback) play no part in a
  demonstration and are left out.
\<close>

record NumberLineProps =
  problem :: jsstring
  demoMode :: bool
  sendIntermediateMessage :: bool
  onDemoPause :: bool
  onDemoResume :: bool
  onDemoComplete :: bool

datatype event =
    Intermediate jsstring
  | DemoPaused DemoState
  | DemoResumed
  | Answer int "jsstring list"
  | DemoCompleted

datatype action =
    SetDemoStep nat
  | FinalMessage int "jsstring list"
  | Completion int "jsstring list"
  | Resumed nat

record NumberLine =
  props :: NumberLineProps
  selectedNumber :: "int option"
  steps :: "int list"
  demoStep :: nat
  demoExplanation :: jsstring
  isDemoComplete :: bool
  messageHistory :: "jsstring list"
  isDemoPaused :: bool
  pauseReasonText :: jsstring
  savedDemoState :: "DemoState option"
  resumeRequested :: bool
  timers :: "(nat \<times> action) list"
  outbox :: "event list"

definition initial :: "NumberLineProps \<Rightarrow> NumberLine" where
  "initial p =
     \<lparr> props = p, selectedNumber = None, steps = [], demoStep = 0, demoExplanation = [],
       isDemoComplete = False, messageHistory = [], isDemoPaused = False,
       pauseReasonText = [], savedDemoState = None, resumeRequested = False,
       timers = [], outbox = [] \<rparr>"

definition sendAndCollectMessage :: "jsstring \<Rightarrow> NumberLine \<Rightarrow> NumberLine" where
  "sendAndCollectMessage message s =
     (let cleanMessage = replace_first (glyph_pin @ js '' '') [] message in
      s \<lparr> messageHistory := messageHistory s @ [cleanMessage],
          outbox := outbox s
            @ (if sendIntermediateMessage (props s) then [Intermediate message] else []) \<rparr>)"

definition setTimeout :: "action \<Rightarrow> nat \<Rightarrow> NumberLine \<Rightarrow> NumberLine" where
  "setTimeout callback delay s = s \<lparr> timers := timers s @ [(delay, callback)] \<rparr>"

definition pauseDemo :: "jsstring \<Rightarrow> int \<Rightarrow> NumberLine \<Rightarrow> NumberLine" where
  \<comment> \<open>\<open>pauseDemo(reason)\<close> when \<open>Date.now()\<close> reads \<open>now\<close>\<close>
  "pauseDemo reason now s =
     (if \<not> demoMode (props s) \<or> isDemoComplete s then s
      else
        (let currentState =
               \<lparr> currentStep = demoStep s,
                 nextStepDelay = (if demoStep s = 0 then 2000 else 1200),
                 pauseReason = Some reason,
                 resumeAt = Some now \<rparr>;
             s1 = s \<lparr> isDemoPaused := True, pauseReasonText := reason,
                      savedDemoState := Some currentState \<rparr>;
             s2 = s1 \<lparr> outbox := outbox s1
                        @ (if onDemoPause (props s1) then [DemoPaused currentState] else []) \<rparr>
         in sendAndCollectMessage
              (glyph_pin @ js '' '' @ glyph_stop @ js '' Demo paused - '' @ reason) s2))"

definition resumeDemo :: "NumberLine \<Rightarrow> NumberLine" where
  "resumeDemo s =
     (case savedDemoState s of
        None \<Rightarrow> s
      | Some saved \<Rightarrow>
          (let s1 = s \<lparr> isDemoPaused := False, pauseReasonText := [],
                       resumeRequested := True \<rparr>;
               s2 = s1 \<lparr> outbox := outbox s1
                          @ (if onDemoResume (props s1) then [DemoResumed] else []) \<rparr>;
               s3 = sendAndCollectMessage
                      (glyph_pin @ js '' '' @ glyph_play @ js '' Demo resuming...'') s2
           in setTimeout (Resumed (currentStep saved)) 500 s3))"

text \<open>
  The demonstration is a \<open>useEffect\<close> with the dependencies \<open>demoMode\<close>, \<open>demoStep\<close>,
  \<open>numbers\<close>, \<open>isDemoComplete\<close>, \<open>isDemoPaused\<close>, \<open>resumeRequested\<close>. \<open>demo_effect s\<close> is
  the body of the effect created by the render whose state is \<open>s\<close>: what the body reads,
  it reads from \<open>s\<close>. A state setter given a function (\<open>setSteps\<close>, \<open>setMessageHistory\<close>)
  updates the state current at the call, which inside the body is \<open>s\<close> as changed so far;
  a value captured for a later callback stays what it was in \<open>s\<close>. So the two timers of the
  last branch carry \<open>messageHistory s\<close>, the history before the branch's own message.
  Setting \<open>isDemoComplete\<close> in the last branch makes one more render, whose effect returns
  at its guard.
\<close>

definition step_message :: "int \<Rightarrow> nat \<Rightarrow> int \<Rightarrow> nat \<Rightarrow> jsstring" where
  \<comment> \<open>the narration of the step \<open>demoStep\<close>, between 1 and \<open>secondNumber\<close>\<close>
  "step_message firstNumber operator secondNumber k =
     (let direction = step_of operator;
          nextPosition = firstNumber + direction * int k in
      if k = 1 then
        js ''Now let's '' @ (if operator = cu CHR ''+'' then js ''add'' else js ''subtract'') @ js '' ''
          @ show_int secondNumber @ js '' step by step...''
      else
        js ''Step '' @ show_nat k @ js '': Moving to '' @ show_int nextPosition @ js ''... ''
          @ (if operator = cu CHR ''+'' then glyph_right else glyph_left))"

definition start_message :: "int \<Rightarrow> jsstring" where
  "start_message firstNumber = js ''Let's start at '' @ show_int firstNumber @ js ''! '' @ glyph_point_left"

definition demo_result :: "int \<Rightarrow> nat \<Rightarrow> int \<Rightarrow> int" where
  "demo_result firstNumber operator secondNumber =
     (if operator = cu CHR ''+'' then firstNumber + secondNumber else firstNumber - secondNumber)"

definition final_message :: "int \<Rightarrow> nat \<Rightarrow> int \<Rightarrow> jsstring" where
  "final_message firstNumber operator secondNumber =
     glyph_party @ js '' Done! '' @ show_int firstNumber @ js '' '' @ [operator] @ js '' ''
       @ show_int secondNumber @ js '' = ''
       @ show_int (demo_result firstNumber operator secondNumber)"

definition completion_message :: "jsstring \<Rightarrow> int \<Rightarrow> jsstring" where
  "completion_message problem_text r =
     glyph_check @ js '' Great job! We successfully solved '' @ problem_text @ js '' and got ''
       @ show_int r @ js ''!''"

definition demo_effect :: "NumberLine \<Rightarrow> NumberLine" where
  "demo_effect s =
     (case parseNumbers (problem (props s)) of
        None \<Rightarrow> s
      | Some (firstNumber, secondNumber, operator) \<Rightarrow>
          if \<not> demoMode (props s) \<or> isDemoComplete s \<or> isDemoPaused s \<or> resumeRequested s
          then s
          else if demoStep s = 0 then
            (let message = start_message firstNumber;
                 s1 = s \<lparr> demoExplanation := message, selectedNumber := Some firstNumber,
                          steps := [firstNumber] \<rparr>;
                 s2 = sendAndCollectMessage (glyph_pin @ js '' '' @ message) s1
             in setTimeout (SetDemoStep 1) 2000 s2)
          else if int (demoStep s) \<le> secondNumber then
            (let direction = step_of operator;
                 nextPosition = firstNumber + direction * int (demoStep s);
                 message = step_message firstNumber operator secondNumber (demoStep s);
                 s1 = s \<lparr> demoExplanation := message, steps := steps s @ [nextPosition] \<rparr>;
                 s2 = sendAndCollectMessage (glyph_pin @ js '' '' @ message) s1
             in setTimeout (SetDemoStep (demoStep s + 1)) 1200 s2)
          else
            (let r = demo_result firstNumber operator secondNumber;
                 finalMessage = final_message firstNumber operator secondNumber;
                 s1 = s \<lparr> demoExplanation := finalMessage, isDemoComplete := True \<rparr>;
                 s2 = sendAndCollectMessage (glyph_pin @ js '' '' @ finalMessage) s1
             in setTimeout (FinalMessage r (messageHistory s)) 2000 s2))"

definition is_step_timer :: "nat \<times> action \<Rightarrow> bool" where
  "is_step_timer t = (case snd t of SetDemoStep _ \<Rightarrow> True | _ \<Rightarrow> False)"

definition cleanup :: "NumberLine \<Rightarrow> NumberLine" where
  \<comment> \<open>\<open>clearTimeout(timeoutId)\<close>: only the first two branches assign \<open>timeoutId\<close>\<close>
  "cleanup s = s \<lparr> timers := filter (\<lambda>t. \<not> is_step_timer t) (timers s) \<rparr>"

definition demo_deps :: "NumberLine \<Rightarrow> bool \<times> nat \<times> bool \<times> bool \<times> bool" where
  "demo_deps s = (demoMode (props s), demoStep s, isDemoComplete s, isDemoPaused s,
                  resumeRequested s)"

definition after_render :: "NumberLine \<Rightarrow> NumberLine \<Rightarrow> NumberLine" where
  \<comment> \<open>the render after a change from \<open>old\<close> to \<open>s\<close>: when a dependency has changed, the
      previous effect is cleaned up and the effect runs again\<close>
  "after_render old s =
     (if demo_deps old = demo_deps s then s else demo_effect (cleanup s))"

definition initial_instruction :: "NumberLine \<Rightarrow> NumberLine" where
  \<comment> \<open>the effect that runs once on mount\<close>
  "initial_instruction s =
     (case parseNumbers (problem (props s)) of
        None \<Rightarrow> s
      | Some (firstNumber, secondNumber, operator) \<Rightarrow>
          if \<not> sendIntermediateMessage (props s) then s
          else if demoMode (props s) then
            sendAndCollectMessage
              (glyph_pin @ js '' Watch as I demonstrate the solution step by step!'') s
          else
            sendAndCollectMessage
              (glyph_pin @ js '' Click on '' @ show_int firstNumber @ js '' to start!'') s)"

definition mount :: "NumberLineProps \<Rightarrow> NumberLine" where
  \<comment> \<open>the first render: the effects run in the order the component declares them\<close>
  "mount p = demo_effect (initial_instruction (initial p))"

definition fire :: "nat \<times> action \<Rightarrow> NumberLine \<Rightarrow> NumberLine" where
  \<comment> \<open>a pending timer goes off\<close>
  "fire t s =
     (let s0 = s \<lparr> timers := remove1 t (timers s) \<rparr> in
      case snd t of
        SetDemoStep n \<Rightarrow> after_render s0 (s0 \<lparr> demoStep := n \<rparr>)
      | Resumed n \<Rightarrow> after_render s0 (s0 \<lparr> resumeRequested := False, demoStep := n \<rparr>)
      | FinalMessage r history \<Rightarrow>
          setTimeout (Completion r history) 500
            (sendAndCollectMessage
               (glyph_pin @ js '' '' @ completion_message (problem (props s0)) r) s0)
      | Completion r history \<Rightarrow>
          s0 \<lparr> outbox := outbox s0 @ [Answer r history]
                 @ (if onDemoComplete (props s0) then [DemoCompleted] else []) \<rparr>)"

definition pause :: "jsstring \<Rightarrow> int \<Rightarrow> NumberLine \<Rightarrow> NumberLine" where
  \<comment> \<open>a call of \<open>pauseDemo\<close> and the render it causes\<close>
  "pause reason now s = after_render s (pauseDemo reason now s)"

definition resume :: "NumberLine \<Rightarrow> NumberLine" where
  \<comment> \<open>a call of \<open>resumeDemo\<close> and the render it causes\<close>
  "resume s = after_render s (resumeDemo s)"

fun run_timers :: "nat \<Rightarrow> NumberLine \<Rightarrow> NumberLine" where
  \<comment> \<open>let up to \<open>n\<close> timers go off, the oldest pending one first; nothing else happens\<close>
  "run_timers 0 s = s"
| "run_timers (Suc n) s =
     (case timers s of
        [] \<Rightarrow> s
      | t # ts \<Rightarrow> run_timers n (fire t s))"

definition demo_narration :: "int \<Rightarrow> nat \<Rightarrow> int \<Rightarrow> jsstring list" where
  \<comment> \<open>the messages of the effect, from the start message to the final message\<close>
  "demo_narration firstNumber operator secondNumber =
     start_message firstNumber
       # map (step_message firstNumber operator secondNumber) [1 ..< Suc (nat secondNumber)]
       @ [final_message firstNumber operator secondNumber]"

section \<open>Notions of the statements\<close>

text \<open>
  A run of the sequential-step grader: the steps are proposed one after the other, each
  with the steps accepted before it as \<open>current_steps\<close>, and each is graded correct.
  \<open>progression a d n\<close> is the arithmetic progression of \<open>n\<close> numbers from \<open>a\<close> in steps of \<open>d\<close>.
\<close>

fun accepted_run :: "jsstring \<Rightarrow> jsstring \<Rightarrow> int list \<Rightarrow> int list \<Rightarrow> bool" where
  "accepted_run prob operation taken [] = True"
| "accepted_run prob operation taken (p # ps) =
     (case validateNumberLineStep prob operation taken p of
        Inl _ \<Rightarrow> False
      | Inr res \<Rightarrow> result res = Correct \<and> accepted_run prob operation (taken @ [p]) ps)"

definition progression :: "int \<Rightarrow> int \<Rightarrow> nat \<Rightarrow> int list" where
  "progression a d n = map (\<lambda>i. a + d * int i) [0 ..< n]"

text \<open>
  The arrays the limiter can hold: it starts empty and changes only by its two methods.
  \<open>in_window now calls\<close> is what is left of \<open>calls\<close> when the times not within the trailing
  30000 ms of \<open>now\<close> are purged.
\<close>

inductive recorded :: "int list \<Rightarrow> bool" where
  recorded_empty: "recorded []"
| recorded_isAllowed: "recorded calls \<Longrightarrow> recorded (snd (isAllowed now calls))"
| recorded_getRemainingCalls: "recorded calls \<Longrightarrow> recorded (snd (getRemainingCalls now calls))"

definition in_window :: "int \<Rightarrow> int list \<Rightarrow> int list" where
  "in_window now calls = filter (\<lambda>t. now - t < 30000) calls"

text \<open>
  The two lexicons as the specification lists them, what it is for a keyword to occur in
  a text, and for a text to begin with a word, in small or capital letters, that white
  space follows. \<open>ascii_lower\<close> is what \<open>toLowerCase\<close> does to a text of ASCII characters.
\<close>

definition continuation_lexicon :: "jsstring list" where
  "continuation_lexicon =
     map js [''continue'', ''resume'', ''next step'', ''keep going'', ''proceed'', ''go on'',
             ''demo'', ''demonstration'', ''show me'', ''let me see'']"

definition interrogative_lexicon :: "jsstring list" where
  "interrogative_lexicon =
     map js [''what'', ''how'', ''why'', ''when'', ''where'', ''who'', ''can you'', ''could you'',
             ''would you'', ''will you'', ''explain'', ''tell me'', ''help me'']"

definition occurs_in :: "jsstring \<Rightarrow> jsstring \<Rightarrow> bool" where
  "occurs_in k s = (\<exists>u v. s = u @ k @ v)"

definition begins_with_word :: "jsstring \<Rightarrow> jsstring \<Rightarrow> bool" where
  "begins_with_word s w = (\<exists>v c r. s = v @ c # r \<and> map ignore_case v = w \<and> is_space c)"

definition ascii_lower :: "jsstring \<Rightarrow> jsstring" where
  "ascii_lower s = map ignore_case s"

text \<open>Two tool configurations, a demonstration and a calculator.\<close>

definition demo_config :: ToolConfig where
  "demo_config = \<lparr> tool_type = Demonstrate_number_line, tool_props = js ''4 + 2'', respond = 0,
     intermediate_callback = Some 1, pause_callback = None, resume_callback = None \<rparr>"

definition calculator_config :: ToolConfig where
  "calculator_config = \<lparr> tool_type = Calculator, tool_props = [], respond = 0,
     intermediate_callback = None, pause_callback = None, resume_callback = None \<rparr>"

text \<open>
  The demonstration of the specification's scenario, \<open>"4 + 2"\<close>, with every callback given;
  what the component sends to the chat for a list of narration messages; the message of
  the mount effect; and the state of an undisturbed demonstration after its step \<open>k\<close>.
\<close>

definition demo_props :: NumberLineProps where
  "demo_props =
     \<lparr> problem = js ''4 + 2'', demoMode = True, sendIntermediateMessage = True,
       onDemoPause = True, onDemoResume = True, onDemoComplete = True \<rparr>"

definition emitted :: "NumberLineProps \<Rightarrow> jsstring list \<Rightarrow> event list" where
  "emitted p ms =
     (if sendIntermediateMessage p then map (\<lambda>m. Intermediate (glyph_pin @ js '' '' @ m)) ms
      else [])"

definition prologue :: "NumberLineProps \<Rightarrow> jsstring list" where
  "prologue p =
     (if sendIntermediateMessage p then [js ''Watch as I demonstrate the solution step by step!'']
      else [])"

definition running :: "NumberLineProps \<Rightarrow> int \<Rightarrow> nat \<Rightarrow> int \<Rightarrow> nat \<Rightarrow> NumberLine \<Rightarrow> bool" where
  "running p a op b k s =
     (props s = p \<and> demoStep s = k \<and> \<not> isDemoComplete s \<and> \<not> isDemoPaused s \<and>
      \<not> resumeRequested s \<and> savedDemoState s = None \<and>
      messageHistory s =
        prologue p @ start_message a # map (step_message a op b) [1 ..< Suc k] \<and>
      timers s = [(if k = 0 then 2000 else 1200, SetDemoStep (Suc k))] \<and>
      outbox s = emitted p (messageHistory s))"

text \<open>The state \<open>pauseDemo\<close> saves, and the narration of a pause without its pin.\<close>

definition saved_at :: "nat \<Rightarrow> jsstring \<Rightarrow> int \<Rightarrow> DemoState" where
  "saved_at k reason now =
     \<lparr> currentStep = k, nextStepDelay = (if k = 0 then 2000 else 1200),
       pauseReason = Some reason, resumeAt = Some now \<rparr>"

definition pause_message :: "jsstring \<Rightarrow> jsstring" where
  "pause_message reason = glyph_stop @ js '' Demo paused - '' @ reason"

section \<open>Facts about the strings\<close>

lemma is_digit_digit_char: "d < 10 \<Longrightarrow> is_digit (digit_char d)"
  by (simp add: is_digit_def digit_char_def)

lemma digit_val_digit_char: "d < 10 \<Longrightarrow> digit_val (digit_char d) = d"
  by (simp add: digit_val_def digit_char_def)

lemma show_nat_small: "n < 10 \<Longrightarrow> show_nat n = [digit_char n]"
  by (subst show_nat.simps) simp

lemma show_nat_digits: "c \<in> set (show_nat n) \<Longrightarrow> is_digit c"
proof (induction n arbitrary: c rule: show_nat.induct)
  case (1 n)
  then show ?case
    by (subst (asm) show_nat.simps) (auto simp: is_digit_digit_char split: if_splits)
qed

lemma show_nat_not_Nil: "show_nat n \<noteq> []"
  by (subst show_nat.simps) simp

lemma nat_of_digits_snoc: "nat_of_digits (ds @ [c]) = 10 * nat_of_digits ds + digit_val c"
  by (simp add: nat_of_digits_def)

text \<open>Reading the decimal text of a number gives the number back.\<close>

lemma nat_of_digits_show_nat: "nat_of_digits (show_nat n) = n"
proof (induction n rule: show_nat.induct)
  case (1 n)
  show ?case
  proof (cases "n < 10")
    case True
    then show ?thesis
      by (subst show_nat.simps) (simp add: nat_of_digits_def digit_val_digit_char)
  next
    case False
    with 1 have "nat_of_digits (show_nat (n div 10)) = n div 10" by simp
    with False show ?thesis
      by (subst show_nat.simps) (simp add: nat_of_digits_snoc digit_val_digit_char)
  qed
qed

lemma takeWhile_digits_show_nat:
  "\<not> is_digit x \<Longrightarrow> takeWhile is_digit (show_nat n @ x # r) = show_nat n"
  by (simp add: takeWhile_tail show_nat_digits)

lemma dropWhile_digits_show_nat:
  "\<not> is_digit x \<Longrightarrow> dropWhile is_digit (show_nat n @ x # r) = x # r"
  by (simp add: dropWhile_append2 show_nat_digits)

lemma takeWhile_digits_show_nat_end: "takeWhile is_digit (show_nat n) = show_nat n"
  by (simp add: takeWhile_eq_all_conv show_nat_digits)

lemma js_Nil: "js [] = []"
  by (simp add: js_def)

lemma js_Cons: "js (c # s) = cu c # js s"
  by (simp add: js_def cu_def)

lemma js_append: "js (s @ t) = js s @ js t"
  by (simp add: js_def)

lemma js_eq_iff [simp]: "js s = js t \<longleftrightarrow> s = t"
  by (simp add: js_def inj_map_eq_map inj_def)

lemma cu_eq_iff [simp]: "cu c = cu d \<longleftrightarrow> c = d"
  by (simp add: cu_def)

lemma space_facts: "is_space 32" "\<not> is_digit 32"
  by (simp_all add: is_space_def is_digit_def)

lemma digit_not_space: "is_digit c \<Longrightarrow> \<not> is_space c"
  by (auto simp: is_digit_def is_space_def)

text \<open>The pattern finds the two numbers and the operator of a problem \<open>"a op b"\<close>.\<close>

lemma plain_problem_eq: "plain_problem a op b = show_nat a @ 32 # op # 32 # show_nat b"
  by (simp add: plain_problem_def js_def)

lemma match_at_plain:
  assumes "op \<in> set ops" "\<not> is_digit op" "\<not> is_space op"
  shows "match_at ops (plain_problem a op b) = Some (show_nat a, op, show_nat b)"
proof -
  let ?s = "show_nat a @ 32 # op # 32 # show_nat b"
  obtain d ds where b: "show_nat b = d # ds"
    using show_nat_not_Nil by (cases "show_nat b") auto
  have "is_digit d" using show_nat_digits [of d b] b by simp
  then have nb: "\<not> is_space d" by (rule digit_not_space)
  have t1: "takeWhile is_digit ?s = show_nat a"
    using takeWhile_digits_show_nat [of 32 a] space_facts by simp
  have d1: "dropWhile is_digit ?s = 32 # op # 32 # show_nat b"
    using dropWhile_digits_show_nat [of 32 a] space_facts by simp
  have d2: "dropWhile is_space (32 # op # 32 # show_nat b) = op # 32 # show_nat b"
    using assms(3) space_facts by simp
  have d3: "dropWhile is_space (32 # show_nat b) = show_nat b"
    using nb space_facts by (simp add: b)
  have d4: "takeWhile is_digit (dropWhile is_space (32 # show_nat b)) = show_nat b"
    unfolding d3 by (rule takeWhile_digits_show_nat_end)
  show ?thesis
    unfolding match_at_def plain_problem_eq t1 d1 d2 Let_def list.case d4
    using assms(1) by (simp add: show_nat_not_Nil)
qed

lemma regex_match_plain:
  assumes "op \<in> set ops" "\<not> is_digit op" "\<not> is_space op"
  shows "regex_match ops (plain_problem a op b) = Some (show_nat a, op, show_nat b)"
proof -
  obtain d ds where a: "show_nat a = d # ds"
    using show_nat_not_Nil by (cases "show_nat a") auto
  have p: "plain_problem a op b = d # ds @ 32 # op # 32 # show_nat b"
    by (simp add: plain_problem_eq a)
  have "match_at ops (d # ds @ 32 # op # 32 # show_nat b)
        = Some (show_nat a, op, show_nat b)"
    using match_at_plain [OF assms, of a b] by (simp add: p)
  then show ?thesis by (simp add: p)
qed

lemma regex_match_plus_minus:
  assumes "op = cu CHR ''+'' \<or> op = cu CHR ''-''"
  shows "regex_match (js ''+-'') (plain_problem a op b) = Some (show_nat a, op, show_nat b)"
  using assms
  by (intro regex_match_plain) (auto simp: is_digit_def is_space_def js_def cu_def)

lemma plain_problem_5_plus_3: "plain_problem 5 (cu CHR ''+'') 3 = js ''5 + 3''"
  by (simp add: plain_problem_eq show_nat_small digit_char_def js_def cu_def)

lemma starts_with_append: "starts_with (k @ v) k"
  by (induction k) auto

lemma starts_with_iff: "starts_with s k \<longleftrightarrow> (\<exists>v. s = k @ v)"
proof (induction s k rule: starts_with.induct)
  case (1 s)
  then show ?case by simp
next
  case (2 k ks)
  then show ?case by simp
next
  case (3 c s k ks)
  then show ?case by auto
qed

text \<open>\<open>str_includes s k\<close> says that \<open>k\<close> occurs in \<open>s\<close>.\<close>

lemma str_includes_iff: "str_includes s k \<longleftrightarrow> (\<exists>u v. s = u @ k @ v)"
proof (induction s)
  case Nil
  then show ?case by auto
next
  case (Cons c s)
  show ?case
  proof
    assume "str_includes (c # s) k"
    then consider "starts_with (c # s) k" | "str_includes s k" by auto
    then show "\<exists>u v. c # s = u @ k @ v"
    proof cases
      case 1
      then obtain v where "c # s = k @ v" by (auto simp: starts_with_iff)
      then have "c # s = [] @ k @ v" by simp
      then show ?thesis by blast
    next
      case 2
      then obtain u v where "s = u @ k @ v" using Cons.IH by auto
      then have "c # s = (c # u) @ k @ v" by simp
      then show ?thesis by blast
    qed
  next
    assume "\<exists>u v. c # s = u @ k @ v"
    then obtain u v where uv: "c # s = u @ k @ v" by auto
    show "str_includes (c # s) k"
    proof (cases u)
      case Nil
      with uv have "starts_with (c # s) k" by (auto simp: starts_with_iff)
      then show ?thesis by simp
    next
      case (Cons d u')
      with uv have "s = u' @ k @ v" by simp
      then have "str_includes s k" using Cons.IH by auto
      then show ?thesis by simp
    qed
  qed
qed

lemma str_includes_middle: "str_includes (u @ k @ v) k"
  by (auto simp: str_includes_iff)


section \<open>The sequential-step grader\<close>

lemma step_accepted_iff:
  assumes "op = cu CHR ''+'' \<or> op = cu CHR ''-''"
  shows "\<exists>res. validateNumberLineStep (plain_problem a op b) operation taken p = Inr res \<and>
    (result res = Correct \<longleftrightarrow> p = (if taken = [] then int a else last taken + step_of op))"
  using assms
  by (auto simp: validateNumberLineStep_def regex_match_plus_minus [OF assms]
      nat_of_digits_show_nat base_result_def Let_def step_of_def)

lemma accepted_run_snoc:
  "accepted_run prob operation taken (ps @ [p]) \<longleftrightarrow>
     accepted_run prob operation taken ps \<and>
     (case validateNumberLineStep prob operation (taken @ ps) p of
        Inl _ \<Rightarrow> False
      | Inr res \<Rightarrow> result res = Correct)"
  by (induction ps arbitrary: taken) (auto split: sum.splits)

lemma progression_Suc: "progression a d (Suc n) = progression a d n @ [a + d * int n]"
  by (simp add: progression_def)

lemma length_progression: "length (progression a d n) = n"
  by (simp add: progression_def)

lemma next_of_progression:
  "(if progression a d n = [] then a else last (progression a d n) + d) = a + d * int n"
  by (cases n) (simp_all add: progression_def algebra_simps)

text \<open>From no step on, the accepted runs are the arithmetic progressions from \<open>a\<close>.\<close>

lemma accepted_run_iff:
  assumes "op = cu CHR ''+'' \<or> op = cu CHR ''-''"
  shows "accepted_run (plain_problem a op b) operation [] sq \<longleftrightarrow>
     sq = progression (int a) (step_of op) (length sq)"
proof (induction sq rule: rev_induct)
  case Nil
  then show ?case by (simp add: progression_def)
next
  case (snoc p ps)
  let ?n = "length ps"
  obtain res where
    res: "validateNumberLineStep (plain_problem a op b) operation ps p = Inr res"
    and ok: "result res = Correct \<longleftrightarrow> p = (if ps = [] then int a else last ps + step_of op)"
    using step_accepted_iff [OF assms, of a b operation ps p] by blast
  have run: "accepted_run (plain_problem a op b) operation [] (ps @ [p]) \<longleftrightarrow>
      ps = progression (int a) (step_of op) ?n \<and>
      p = (if ps = [] then int a else last ps + step_of op)"
    by (simp add: accepted_run_snoc res ok snoc.IH)
  have "ps = progression (int a) (step_of op) ?n \<and>
        p = (if ps = [] then int a else last ps + step_of op) \<longleftrightarrow>
      ps = progression (int a) (step_of op) ?n \<and> p = int a + step_of op * int ?n"
    using next_of_progression [of "int a" "step_of op" ?n] by auto
  also have "\<dots> \<longleftrightarrow> ps @ [p] = progression (int a) (step_of op) (length (ps @ [p]))"
    by (simp add: progression_Suc)
  finally show ?case using run by simp
qed

text \<open>
  C1 (as amended). All numbers are safe integers. On a problem \<open>"a op b"\<close> with \<open>op\<close> one of
  \<open>+\<close> and \<open>-\<close> the grader always returns a verdict. With no step taken yet the verdict is
  correct exactly when the proposed step is \<open>a\<close>, and every other proposal is incorrect with
  the mistake \<open>wrong_starting_number\<close>; the verdict of this first step carries neither
  \<open>problem_completed\<close> nor \<open>final_answer\<close> nor \<open>remaining_steps\<close>. After at least one step
  the verdict is correct exactly when the proposed step is the last step plus one (for
  \<open>+\<close>) or minus one (for \<open>-\<close>); such an accepted step completes the problem, with
  \<open>final_answer = a op b\<close>, when \<open>b\<close> steps were already taken, and it reports
  \<open>remaining_steps = b - length current_steps\<close> when fewer were. A run of at most \<open>b + 1\<close>
  steps from no step on is accepted exactly when it is the arithmetic progression from
  \<open>a\<close>, which ends at \<open>a op b\<close> with its step \<open>b + 1\<close>.
\<close>

theorem number_line_progression:
  assumes "op = cu CHR ''+'' \<or> op = cu CHR ''-''"
    and "safe_integer (int a + int b)"
    and "\<forall>p \<in> set taken. safe_integer p" and "safe_integer proposed"
    and "\<forall>p \<in> set sq. safe_integer p"
  shows "\<exists>res. validateNumberLineStep (plain_problem a op b) operation taken proposed = Inr res \<and>
    (taken = [] \<longrightarrow>
       (result res = Correct \<longleftrightarrow> proposed = int a) \<and>
       (is_correct res \<longleftrightarrow> proposed = int a) \<and>
       (proposed \<noteq> int a \<longrightarrow>
          result res = Incorrect \<and> mistake_type res = Some (js ''wrong_starting_number'')) \<and>
       problem_completed res = None \<and> final_answer res = None \<and> remaining_steps res = None) \<and>
    (taken \<noteq> [] \<longrightarrow>
       (result res = Correct \<longleftrightarrow>
          proposed = last taken + (if op = cu CHR ''+'' then 1 else - 1)) \<and>
       (is_correct res \<longleftrightarrow> result res = Correct) \<and>
       (result res \<noteq> Correct \<longrightarrow> result res = Incorrect) \<and>
       (result res = Correct \<and> length taken = b \<longrightarrow>
          problem_completed res = Some True \<and>
          final_answer res = Some (if op = cu CHR ''+'' then int a + int b else int a - int b) \<and>
          remaining_steps res = None) \<and>
       (result res = Correct \<and> length taken < b \<longrightarrow>
          remaining_steps res = Some (int b - int (length taken)) \<and>
          problem_completed res = None \<and> final_answer res = None)) \<and>
    (length sq \<le> b + 1 \<longrightarrow>
       (accepted_run (plain_problem a op b) operation [] sq \<longleftrightarrow>
          sq = progression (int a) (if op = cu CHR ''+'' then 1 else - 1) (length sq)))"
proof -
  have run: "accepted_run (plain_problem a op b) operation [] sq \<longleftrightarrow>
      sq = progression (int a) (if op = cu CHR ''+'' then 1 else - 1) (length sq)"
    using accepted_run_iff [OF assms(1), of a b operation sq] by (simp add: step_of_def)
  show ?thesis
  proof (cases "taken = []")
    case True
    then show ?thesis
      using run
      by (simp add: validateNumberLineStep_def regex_match_plus_minus [OF assms(1)]
          nat_of_digits_show_nat base_result_def Let_def)
  next
    case False
    then show ?thesis
      using assms(1) run
      by (auto simp: validateNumberLineStep_def regex_match_plus_minus [OF assms(1)]
          nat_of_digits_show_nat base_result_def Let_def step_of_def)
  qed
qed

text \<open>
  The scenario of the specification: problem \<open>"5 + 3"\<close>, one step taken at 5, the step 6
  proposed. And the run 5, 6, 7, 8.
\<close>

theorem number_line_progression_witness:
  "(\<exists>res. validateNumberLineStep (js ''5 + 3'') (js ''addition'') [5] 6 = Inr res \<and>
      result res = Correct \<and> remaining_steps res = Some 2 \<and> problem_completed res = None)
   \<and> accepted_run (js ''5 + 3'') (js ''addition'') [] [5, 6, 7, 8]"
proof -
  have safe: "safe_integer (int 5 + int 3)" "\<forall>p \<in> set [5]. safe_integer p" "safe_integer 6"
    "\<forall>p \<in> set [5, 6, 7, 8]. safe_integer p"
    by (simp_all add: safe_integer_def)
  have p: "progression (int 5) 1 (length [5, 6, 7, 8 :: int]) = [5, 6, 7, 8]"
    by (simp add: progression_def upt_rec)
  note t = number_line_progression [where op = "cu CHR ''+''" and a = 5 and b = 3
      and taken = "[5]" and proposed = 6 and sq = "[5, 6, 7, 8]"
      and operation = "js ''addition''", OF _ safe, unfolded plain_problem_5_plus_3]
  from t have "(\<exists>res. validateNumberLineStep (js ''5 + 3'') (js ''addition'') [5] 6 = Inr res \<and>
      result res = Correct \<and> remaining_steps res = Some 2 \<and> problem_completed res = None)
   \<and> (accepted_run (js ''5 + 3'') (js ''addition'') [] [5, 6, 7, 8] \<longleftrightarrow>
        [5, 6, 7, 8] = progression (int 5) 1 (length [5, 6, 7, 8 :: int]))"
    by auto
  then show ?thesis unfolding p by simp
qed

text \<open>
  C1 as the specification states it fails in three places. The accepted first step of
  \<open>"5 + 3"\<close> reports no \<open>remaining_steps\<close> (the claim: 3). The accepted first step of
  \<open>"5 + 0"\<close>, taken when the number of steps taken is already \<open>b = 0\<close>, does not complete the
  problem. And the grader accepts more than the progression from \<open>a\<close> to \<open>a op b\<close>: after
  5, 6, 7, 8 on \<open>"5 + 3"\<close> the step 9 is correct.
\<close>

theorem number_line_counterexample:
  "validateNumberLineStep (js ''5 + 3'') (js ''addition'') [] 5 =
     Inr \<lparr> result = Correct, is_correct = True,
           feedback = js ''Perfect! You started at 5. Now let's count forward!'',
           hint = js ''Great start! Next, click on 6.'', mistake_type = None,
           guidance_level = js ''encouraging'', problem_completed = None,
           final_answer = None, remaining_steps = None, correct_answer = None \<rparr>
   \<and> validateNumberLineStep (js ''5 + 0'') (js ''addition'') [] 5 =
     Inr \<lparr> result = Correct, is_correct = True,
           feedback = js ''Perfect! You started at 5. Now let's count forward!'',
           hint = js ''Great start! Next, click on 6.'', mistake_type = None,
           guidance_level = js ''encouraging'', problem_completed = None,
           final_answer = None, remaining_steps = None, correct_answer = None \<rparr>
   \<and> validateNumberLineStep (js ''5 + 3'') (js ''addition'') [5, 6, 7, 8] 9 =
     Inr \<lparr> result = Correct, is_correct = True,
           feedback = glyph_party @ js '' Fantastic! You solved 5 + 3 = 8!'',
           hint = js ''Excellent work! You completed the problem step by step.'',
           mistake_type = None, guidance_level = js ''celebration'',
           problem_completed = Some True, final_answer = Some 8, remaining_steps = None,
           correct_answer = None \<rparr>
   \<and> accepted_run (js ''5 + 3'') (js ''addition'') [] [5, 6, 7, 8, 9]
   \<and> [5, 6, 7, 8, 9] \<noteq> progression 5 1 (3 + 1)"
  by (simp add: validateNumberLineStep_def match_at_def is_digit_def is_space_def
      nat_of_digits_def digit_val_def base_result_def show_int_def show_nat_small
      digit_char_def step_of_def js_def cu_def progression_def upt_rec)

text \<open>
  C6. The steps are safe integers. After at least one step, a proposed step that is not
  the expected next number is incorrect, and is classified: under \<open>+\<close>, \<open>skipping_numbers\<close>
  when it lies beyond the expected number and \<open>wrong_direction\<close> when it lies before the
  last step; in every other case, so for every wrong step under \<open>-\<close> and for a repeated
  last step under \<open>+\<close>, \<open>incorrect_sequence\<close>. In each case the hint contains the expected
  next number, and no other number but (for \<open>skipping_numbers\<close>) the proposed one.
\<close>

theorem number_line_mistakes:
  assumes "op = cu CHR ''+'' \<or> op = cu CHR ''-''"
    and "taken \<noteq> []"
    and "safe_integer (last taken)" and "safe_integer proposed"
    and "expectedNext = last taken + (if op = cu CHR ''+'' then 1 else - 1)"
    and "proposed \<noteq> expectedNext"
  shows "\<exists>res. validateNumberLineStep (plain_problem a op b) operation taken proposed = Inr res \<and>
    result res = Incorrect \<and> \<not> is_correct res \<and>
    str_includes (hint res) (show_int expectedNext) \<and>
    (if op = cu CHR ''+'' \<and> proposed > expectedNext then
       mistake_type res = Some (js ''skipping_numbers'') \<and>
       hint res = js ''Try clicking on '' @ show_int expectedNext @ js '' instead of ''
                    @ show_int proposed @ js ''.''
     else if op = cu CHR ''+'' \<and> proposed < last taken then
       mistake_type res = Some (js ''wrong_direction'') \<and>
       hint res = js ''Click on '' @ show_int expectedNext @ js '' to continue counting forward.''
     else
       mistake_type res = Some (js ''incorrect_sequence'') \<and>
       hint res = js ''Click on '' @ show_int expectedNext @ js '' to continue.'')"
proof -
  let ?cls = "\<lambda>res.
    (if op = cu CHR ''+'' \<and> proposed > expectedNext then
       mistake_type res = Some (js ''skipping_numbers'') \<and>
       hint res = js ''Try clicking on '' @ show_int expectedNext @ js '' instead of ''
                    @ show_int proposed @ js ''.''
     else if op = cu CHR ''+'' \<and> proposed < last taken then
       mistake_type res = Some (js ''wrong_direction'') \<and>
       hint res = js ''Click on '' @ show_int expectedNext @ js '' to continue counting forward.''
     else
       mistake_type res = Some (js ''incorrect_sequence'') \<and>
       hint res = js ''Click on '' @ show_int expectedNext @ js '' to continue.'')"
  have "\<exists>res. validateNumberLineStep (plain_problem a op b) operation taken proposed = Inr res \<and>
      result res = Incorrect \<and> \<not> is_correct res \<and> ?cls res"
    using assms(1,2,5,6)
    by (auto simp: validateNumberLineStep_def regex_match_plus_minus [OF assms(1)]
        nat_of_digits_show_nat base_result_def Let_def step_of_def)
  then obtain res where
    res: "validateNumberLineStep (plain_problem a op b) operation taken proposed = Inr res"
      "result res = Incorrect" "\<not> is_correct res" and cls: "?cls res"
    by blast
  from cls have "\<exists>u v. hint res = u @ show_int expectedNext @ v"
    by (metis (no_types, lifting))
  then have "str_includes (hint res) (show_int expectedNext)"
    by (simp only: str_includes_iff)
  with res cls show ?thesis by blast
qed

theorem number_line_mistakes_witness:
  "(\<exists>res. validateNumberLineStep (js ''5 + 3'') (js ''addition'') [5] 8 = Inr res \<and>
      mistake_type res = Some (js ''skipping_numbers'') \<and>
      hint res = js ''Try clicking on 6 instead of 8.'')
   \<and> (\<exists>res. validateNumberLineStep (js ''5 + 3'') (js ''addition'') [5, 6] 4 = Inr res \<and>
      mistake_type res = Some (js ''wrong_direction'') \<and>
      hint res = js ''Click on 7 to continue counting forward.'')"
proof -
  have safe: "safe_integer (last [5])" "safe_integer 8" "safe_integer (last [5, 6])"
    "safe_integer 4"
    by (simp_all add: safe_integer_def)
  note s = number_line_mistakes [where op = "cu CHR ''+''" and taken = "[5]" and proposed = 8
      and expectedNext = 6 and a = 5 and b = 3 and operation = "js ''addition''",
      OF _ _ safe(1,2), unfolded plain_problem_5_plus_3]
  note w = number_line_mistakes [where op = "cu CHR ''+''" and taken = "[5, 6]" and proposed = 4
      and expectedNext = 7 and a = 5 and b = 3 and operation = "js ''addition''",
      OF _ _ safe(3,4), unfolded plain_problem_5_plus_3]
  have "\<exists>res. validateNumberLineStep (js ''5 + 3'') (js ''addition'') [5] 8 = Inr res \<and>
      mistake_type res = Some (js ''skipping_numbers'') \<and>
      hint res = js ''Try clicking on 6 instead of 8.''"
    using s by (auto simp: show_int_def show_nat_small digit_char_def js_def)
  moreover have "\<exists>res. validateNumberLineStep (js ''5 + 3'') (js ''addition'') [5, 6] 4 = Inr res \<and>
      mistake_type res = Some (js ''wrong_direction'') \<and>
      hint res = js ''Click on 7 to continue counting forward.''"
    using w by (auto simp: show_int_def show_nat_small digit_char_def js_def)
  ultimately show ?thesis by blast
qed
section \<open>The final-answer grader\<close>

lemma match_at_operator: "match_at ops s = Some (m1, op, m3) \<Longrightarrow> op \<in> set ops"
  by (auto simp: match_at_def Let_def split: list.splits if_splits)

lemma regex_match_operator: "regex_match ops s = Some (m1, op, m3) \<Longrightarrow> op \<in> set ops"
proof (induction s)
  case Nil
  then show ?case by simp
next
  case (Cons c s)
  then show ?case
    by (auto split: option.splits dest: match_at_operator)
qed

lemma dropWhile_all_iff: "(\<forall>x \<in> set (dropWhile P s). P x) \<longleftrightarrow> (\<forall>x \<in> set s. P x)"
  by (induction s) auto

lemma trim_Nil_iff: "trim s = [] \<longleftrightarrow> (\<forall>c \<in> set s. is_space c)"
  by (simp add: trim_def dropWhile_all_iff)

lemma parseFloat_Nil: "parseFloat [] = NaN"
  by (simp add: parseFloat_def)

lemma practice_answer_total:
  "op \<in> set (js ''+-*/'') \<Longrightarrow> \<exists>c. practice_answer op x y = Inr c"
  by (auto simp: practice_answer_def js_def cu_def)

subsection \<open>Doubles\<close>

lemma round_half_even_of_int: "round_half_even (of_int k) = k"
  by (simp add: round_half_even_def)

lemma round_half_even_nonneg: "0 \<le> q \<Longrightarrow> 0 \<le> round_half_even q"
  by (auto simp: round_half_even_def Let_def)

text \<open>An integer of magnitude below \<open>2 ^ 53\<close> is a double.\<close>

lemma to_double_of_int:
  assumes "\<bar>n\<bar> < 2 ^ 53"
  shows "to_double (of_int n) = Num (of_int n)"
proof (cases "n = 0")
  case True
  then show ?thesis by (simp add: to_double_def)
next
  case False
  define m where "m = \<bar>n\<bar>"
  define e where "e = bitlen m - 1"
  define k where "k = nat (52 - e)"
  have m: "0 < m" "m < 2 ^ 53" using False assms by (simp_all add: m_def)
  have "bitlen m \<le> 53" using m(2) by (simp add: bitlen_le_iff_power)
  moreover have "bitlen m \<noteq> 0" using m(1) by (simp add: bitlen_eq_zero_iff)
  ultimately have e: "0 \<le> e" "e \<le> 52" using bitlen_nonneg [of m] by (simp_all add: e_def)
  have ax: "\<bar>of_int n :: rat\<bar> = of_int m" by (simp add: m_def)
  have ex: "exponent_of (of_int m) = e"
    using m(1) by (simp add: exponent_of_def e_def)
  have q: "max (e - 52) (- 1074) = - int k" using e by (simp add: k_def)
  have p: "(2::rat) powi (- int k) = 1 / 2 ^ k"
    by (simp add: power_int_minus_divide)
  have r: "round_half_even (of_int m / (1 / 2 ^ k)) = m * 2 ^ k"
    using round_half_even_of_int [of "m * 2 ^ k"] by simp
  have y: "of_int (m * 2 ^ k) * (1 / 2 ^ k) = (of_int m :: rat)" by simp
  have big: "\<not> (2::rat) powi 1024 \<le> of_int m"
  proof -
    have "(of_int m :: rat) < 2 ^ 53" using m(2) by (metis of_int_less_numeral_power_cancel_iff)
    also have "\<dots> < 2 ^ 1024" by simp
    finally show ?thesis by simp
  qed
  have nz: "(of_int n :: rat) \<noteq> 0" using False by simp
  show ?thesis
    unfolding to_double_def ax ex q p r y Let_def
    using nz big False by (auto simp: m_def)
qed

lemma to_double_of_nat: "a < 2 ^ 53 \<Longrightarrow> to_double (of_nat a) = Num (of_nat a)"
  using to_double_of_int [of "int a"] by simp

text \<open>The double of a number that is not negative is not negative.\<close>

lemma to_double_nonneg:
  assumes "0 \<le> x" "to_double x = Num y"
  shows "0 \<le> y"
proof (cases "x = 0")
  case True
  with assms(2) show ?thesis by (simp add: to_double_def)
next
  case False
  let ?q = "max (exponent_of \<bar>x\<bar> - 52) (- 1074)"
  have "0 \<le> \<bar>x\<bar> / 2 powi ?q" by simp
  then have "0 \<le> round_half_even (\<bar>x\<bar> / 2 powi ?q)" by (rule round_half_even_nonneg)
  then have "(0::rat) \<le> of_int (round_half_even (\<bar>x\<bar> / 2 powi ?q)) * 2 powi ?q" by simp
  with assms False show ?thesis
    by (auto simp: to_double_def Let_def split: if_splits)
qed

text \<open>The literal \<open>0.01\<close> is the double \<open>5764607523034235 / 2 ^ 59\<close>, a little above \<open>1 / 100\<close>.\<close>

lemma tolerance_value: "to_double (1 / 100) = Num (5764607523034235 / 2 ^ 59)"
  by code_simp

lemma js_sub_Num: "js_sub (Num x) (Num y) = to_double (x - y)"
  by (simp add: js_sub_def)

lemma within_tolerance:
  "js_lt (js_abs (js_sub (Num x) c)) (to_double (1 / 100)) \<longleftrightarrow>
     (\<exists>y d. c = Num y \<and> to_double (x - y) = Num d \<and> \<bar>d\<bar> < 5764607523034235 / 2 ^ 59)"
proof (cases c)
  case (Num y)
  then show ?thesis
    by (cases "to_double (x - y)") (simp_all add: js_sub_Num tolerance_value)
qed (simp_all add: js_sub_def tolerance_value)

lemma practice_answer_value:
  assumes "op \<in> set (js ''+-*/'')" "0 \<le> a"
  shows "practice_answer op (Num a) (Num b) =
     Inr (if op = cu CHR ''+'' then to_double (a + b)
          else if op = cu CHR ''-'' then to_double (a - b)
          else if op = cu CHR ''*'' then to_double (a * b)
          else if b = 0 then (if a = 0 then NaN else PosInfinity)
          else to_double (a / b))"
  using assms
  by (auto simp: practice_answer_def js_sub_Num js_inf_def js_sign_def js_def cu_def)

text \<open>
  C7. Take a problem in which the pattern finds \<open>m1 op m3\<close>, the two operands being the
  doubles \<open>a\<close> and \<open>b\<close> (they are the numbers \<open>m1\<close> and \<open>m3\<close> denote when these are below
  \<open>2 ^ 53\<close>), and an input that \<open>parseFloat\<close> reads as the number \<open>x\<close>. The computed result
  \<open>c\<close> is the double nearest to \<open>a op b\<close> (for a division by zero, \<open>NaN\<close> when \<open>a\<close> is zero and
  \<open>Infinity\<close> otherwise); it is \<open>a op b\<close> itself when that is an integer below \<open>2 ^ 53\<close>. The
  grader returns a verdict. The verdict is correct exactly when \<open>c\<close> is finite and the
  double nearest to \<open>x - c\<close> is, in magnitude, below the double of the literal \<open>0.01\<close>; a
  correct verdict has the guidance level \<open>celebration\<close> and carries \<open>correct_answer = c\<close>.
  Otherwise the verdict is incorrect: \<open>not_adding\<close> when the operator is \<open>+\<close> and \<open>x\<close> is one
  of the operands; in every other case \<open>incorrect_calculation\<close> with \<open>correct_answer = c\<close>
  and the guidance level \<open>gentle\<close> for \<open>step_number = 1\<close>, \<open>specific\<close> for any other.
\<close>

theorem practice_grading:
  assumes "regex_match (js ''+-*/'') prob = Some (m1, op, m3)"
    and "parseFloat (trim ui) = Num x"
    and "to_double (of_nat (nat_of_digits m1)) = Num a"
    and "to_double (of_nat (nat_of_digits m3)) = Num b"
    and "c = (if op = cu CHR ''+'' then to_double (a + b)
              else if op = cu CHR ''-'' then to_double (a - b)
              else if op = cu CHR ''*'' then to_double (a * b)
              else if b = 0 then (if a = 0 then NaN else PosInfinity)
              else to_double (a / b))"
  shows "\<exists>res. validatePracticeStep to_string prob operation ui step = Inr res \<and>
      (nat_of_digits m1 < 2 ^ 53 \<longrightarrow> a = of_nat (nat_of_digits m1)) \<and>
      (nat_of_digits m3 < 2 ^ 53 \<longrightarrow> b = of_nat (nat_of_digits m3)) \<and>
      (\<forall>n. \<bar>n\<bar> < 2 ^ 53 \<and>
           (op = cu CHR ''+'' \<and> a + b = of_int n \<or> op = cu CHR ''-'' \<and> a - b = of_int n \<or>
            op = cu CHR ''*'' \<and> a * b = of_int n \<or>
            op = cu CHR ''/'' \<and> b \<noteq> 0 \<and> a / b = of_int n) \<longrightarrow>
           c = Num (of_int n)) \<and>
      (result res = Correct \<longleftrightarrow>
         (\<exists>y d. c = Num y \<and> to_double (x - y) = Num d \<and> \<bar>d\<bar> < 5764607523034235 / 2 ^ 59)) \<and>
      (result res = Correct \<longrightarrow>
         is_correct res \<and> guidance_level res = js ''celebration'' \<and> correct_answer res = Some c) \<and>
      (result res \<noteq> Correct \<longrightarrow> result res = Incorrect \<and> \<not> is_correct res) \<and>
      (result res \<noteq> Correct \<and> op = cu CHR ''+'' \<and> (x = a \<or> x = b) \<longrightarrow>
         mistake_type res = Some (js ''not_adding'')) \<and>
      (result res \<noteq> Correct \<and> \<not> (op = cu CHR ''+'' \<and> (x = a \<or> x = b)) \<longrightarrow>
         mistake_type res = Some (js ''incorrect_calculation'') \<and> correct_answer res = Some c \<and>
         guidance_level res = (if step = 1 then js ''gentle'' else js ''specific''))"
proof -
  have op: "op \<in> set (js ''+-*/'')" using assms(1) by (rule regex_match_operator)
  have a0: "0 \<le> a" using to_double_nonneg [OF _ assms(3)] by simp
  have c: "practice_answer op (Num a) (Num b) = Inr c"
    unfolding assms(5) using op a0 by (rule practice_answer_value)
  have "trim ui \<noteq> []"
  proof
    assume "trim ui = []"
    with assms(2) show False by (simp add: parseFloat_Nil)
  qed
  moreover from this have "ui \<noteq> []" by (auto simp: trim_def)
  ultimately have nonblank: "ui \<noteq> []" "trim ui \<noteq> []" by simp_all
  have sa: "a = of_nat (nat_of_digits m1)" if "nat_of_digits m1 < 2 ^ 53"
    using to_double_of_nat [OF that] assms(3) by simp
  have sb: "b = of_nat (nat_of_digits m3)" if "nat_of_digits m3 < 2 ^ 53"
    using to_double_of_nat [OF that] assms(4) by simp
  have exact: "c = Num (of_int n)"
    if "\<bar>n\<bar> < 2 ^ 53 \<and>
           (op = cu CHR ''+'' \<and> a + b = of_int n \<or> op = cu CHR ''-'' \<and> a - b = of_int n \<or>
            op = cu CHR ''*'' \<and> a * b = of_int n \<or>
            op = cu CHR ''/'' \<and> b \<noteq> 0 \<and> a / b = of_int n)" for n
    using that to_double_of_int [of n] unfolding assms(5) by (auto simp: cu_def)
  have grade: "\<exists>res. validatePracticeStep to_string prob operation ui step = Inr res \<and>
      (result res = Correct \<longleftrightarrow> js_lt (js_abs (js_sub (Num x) c)) (to_double (1 / 100))) \<and>
      (result res = Correct \<longrightarrow>
         is_correct res \<and> guidance_level res = js ''celebration'' \<and> correct_answer res = Some c) \<and>
      (result res \<noteq> Correct \<longrightarrow> result res = Incorrect \<and> \<not> is_correct res) \<and>
      (result res \<noteq> Correct \<and> op = cu CHR ''+'' \<and> (x = a \<or> x = b) \<longrightarrow>
         mistake_type res = Some (js ''not_adding'')) \<and>
      (result res \<noteq> Correct \<and> \<not> (op = cu CHR ''+'' \<and> (x = a \<or> x = b)) \<longrightarrow>
         mistake_type res = Some (js ''incorrect_calculation'') \<and> correct_answer res = Some c \<and>
         guidance_level res = (if step = 1 then js ''gentle'' else js ''specific''))"
    using nonblank c
    by (auto simp: validatePracticeStep_def try_parseFloat_def assms(1-4) base_result_def
        js_eq_def Let_def)
  then obtain res where
    r: "validatePracticeStep to_string prob operation ui step = Inr res"
    and g1: "result res = Correct \<longleftrightarrow> js_lt (js_abs (js_sub (Num x) c)) (to_double (1 / 100))"
    and g2: "result res = Correct \<longrightarrow>
         is_correct res \<and> guidance_level res = js ''celebration'' \<and> correct_answer res = Some c"
    and g3: "result res \<noteq> Correct \<longrightarrow> result res = Incorrect \<and> \<not> is_correct res"
    and g4: "result res \<noteq> Correct \<and> op = cu CHR ''+'' \<and> (x = a \<or> x = b) \<longrightarrow>
         mistake_type res = Some (js ''not_adding'')"
    and g5: "result res \<noteq> Correct \<and> \<not> (op = cu CHR ''+'' \<and> (x = a \<or> x = b)) \<longrightarrow>
         mistake_type res = Some (js ''incorrect_calculation'') \<and> correct_answer res = Some c \<and>
         guidance_level res = (if step = 1 then js ''gentle'' else js ''specific'')"
    by blast
  from g1 have g1': "result res = Correct \<longleftrightarrow>
      (\<exists>y d. c = Num y \<and> to_double (x - y) = Num d \<and> \<bar>d\<bar> < 5764607523034235 / 2 ^ 59)"
    by (simp only: within_tolerance)
  from r sa sb exact g1' g2 g3 g4 g5 show ?thesis by blast
qed

text \<open>
  The scenario of the specification: \<open>"12 / 4"\<close> answered with \<open>"3"\<close>, then with \<open>"8"\<close>. And
  \<open>"5 + 3"\<close> answered with \<open>"8.01"\<close>: the double of \<open>8.01\<close> lies below \<open>8.01\<close>, and its distance
  to 8 below the double of \<open>0.01\<close>.
\<close>

theorem practice_grading_witness:
  "\<forall>to_string.
     (\<exists>res. validatePracticeStep to_string (js ''12 / 4'') (js ''division'') (js ''3'') 1 = Inr res \<and>
        result res = Correct \<and> guidance_level res = js ''celebration'' \<and>
        correct_answer res = Some (Num 3)) \<and>
     (\<exists>res. validatePracticeStep to_string (js ''12 / 4'') (js ''division'') (js ''8'') 1 = Inr res \<and>
        result res = Incorrect \<and> mistake_type res = Some (js ''incorrect_calculation'') \<and>
        guidance_level res = js ''gentle'' \<and> correct_answer res = Some (Num 3)) \<and>
     (\<exists>res. validatePracticeStep to_string (js ''5 + 3'') (js ''addition'') (js ''8.01'') 1 = Inr res \<and>
        result res = Correct \<and> guidance_level res = js ''celebration'' \<and>
        correct_answer res = Some (Num 8))"
proof (intro allI conjI)
  fix to_string :: "jsnum \<Rightarrow> jsstring"
  have m: "regex_match (js ''+-*/'') (js ''12 / 4'') = Some (js ''12'', cu CHR ''/'', js ''4'')"
    by (simp add: match_at_def is_digit_def is_space_def js_def cu_def)
  have m': "regex_match (js ''+-*/'') (js ''5 + 3'') = Some (js ''5'', cu CHR ''+'', js ''3'')"
    by (simp add: match_at_def is_digit_def is_space_def js_def cu_def)
  have d: "to_double 3 = Num 3" "to_double 4 = Num 4" "to_double 5 = Num 5"
    "to_double 8 = Num 8" "to_double 12 = Num 12" "to_double 0 = Num 0"
    using to_double_of_int [of 3] to_double_of_int [of 4] to_double_of_int [of 5]
      to_double_of_int [of 8] to_double_of_int [of 12] to_double_of_int [of 0]
    by simp_all
  have i3: "parseFloat (trim (js ''3'')) = Num 3"
    by (simp add: parseFloat_def trim_def parse_unsigned_def is_space_def is_digit_def
        nat_of_digits_def digit_val_def js_def cu_def d)
  have i8: "parseFloat (trim (js ''8'')) = Num 8"
    by (simp add: parseFloat_def trim_def parse_unsigned_def is_space_def is_digit_def
        nat_of_digits_def digit_val_def js_def cu_def d)
  have "parseFloat (trim (js ''8.01'')) = to_double (801 / 100)"
    by (simp add: parseFloat_def trim_def parse_unsigned_def parse_exponent_def pow10_def
        is_space_def is_digit_def nat_of_digits_def digit_val_def js_def cu_def)
  also have "\<dots> = Num (4509229126904709 / 2 ^ 49)"
    by code_simp
  finally have i801: "parseFloat (trim (js ''8.01'')) = Num (4509229126904709 / 2 ^ 49)" .
  have n: "to_double (of_nat (nat_of_digits (js ''12''))) = Num 12"
    "to_double (of_nat (nat_of_digits (js ''4''))) = Num 4"
    "to_double (of_nat (nat_of_digits (js ''5''))) = Num 5"
    "to_double (of_nat (nat_of_digits (js ''3''))) = Num 3"
    by (simp_all add: nat_of_digits_def digit_val_def js_def d)
  have c: "(if cu CHR ''/'' = cu CHR ''+'' then to_double (12 + 4)
            else if cu CHR ''/'' = cu CHR ''-'' then to_double (12 - 4)
            else if cu CHR ''/'' = cu CHR ''*'' then to_double (12 * 4)
            else if (4::rat) = 0 then (if (12::rat) = 0 then NaN else PosInfinity)
            else to_double (12 / 4)) = Num 3"
    by (simp add: cu_def d)
  have c': "(if cu CHR ''+'' = cu CHR ''+'' then to_double (5 + 3)
            else if cu CHR ''+'' = cu CHR ''-'' then to_double (5 - 3)
            else if cu CHR ''+'' = cu CHR ''*'' then to_double (5 * 3)
            else if (3::rat) = 0 then (if (5::rat) = 0 then NaN else PosInfinity)
            else to_double (5 / 3)) = Num 8"
    by (simp add: d)
  have near3: "\<exists>y d. Num 3 = Num y \<and> to_double (3 - y) = Num d \<and> \<bar>d\<bar> < 5764607523034235 / 2 ^ 59"
    by (simp add: d)
  have far8: "\<not> (\<exists>y d. Num 3 = Num y \<and> to_double (8 - y) = Num d \<and> \<bar>d\<bar> < 5764607523034235 / 2 ^ 59)"
    by (simp add: d)
  have diff: "to_double (4509229126904709 / 2 ^ 49 - 8) = Num (5629499534213 / 2 ^ 49)"
    by code_simp
  have near801: "\<exists>y d. Num 8 = Num y \<and> to_double (4509229126904709 / 2 ^ 49 - y) = Num d
      \<and> \<bar>d\<bar> < 5764607523034235 / 2 ^ 59"
  proof (intro exI conjI)
    show "Num 8 = Num 8" ..
    show "to_double (4509229126904709 / 2 ^ 49 - 8) = Num (5629499534213 / 2 ^ 49)"
      by (rule diff)
    show "\<bar>5629499534213 / 2 ^ 49 :: rat\<bar> < 5764607523034235 / 2 ^ 59"
      by simp
  qed
  have op: "cu CHR ''/'' \<noteq> cu CHR ''+''" by (simp add: cu_def)
  note t3 = practice_grading [where to_string = to_string and operation = "js ''division''"
      and step = 1, OF m i3 n(1) n(2) refl, unfolded c]
  note t8 = practice_grading [where to_string = to_string and operation = "js ''division''"
      and step = 1, OF m i8 n(1) n(2) refl, unfolded c]
  note t801 = practice_grading [where to_string = to_string and operation = "js ''addition''"
      and step = 1, OF m' i801 n(3) n(4) refl, unfolded c']
  show "\<exists>res. validatePracticeStep to_string (js ''12 / 4'') (js ''division'') (js ''3'') 1 = Inr res \<and>
        result res = Correct \<and> guidance_level res = js ''celebration'' \<and>
        correct_answer res = Some (Num 3)"
  proof -
    from t3 obtain res where
      r: "validatePracticeStep to_string (js ''12 / 4'') (js ''division'') (js ''3'') 1 = Inr res"
      and iff: "result res = Correct \<longleftrightarrow>
        (\<exists>y d. Num 3 = Num y \<and> to_double (3 - y) = Num d \<and> \<bar>d\<bar> < 5764607523034235 / 2 ^ 59)"
      and ok: "result res = Correct \<longrightarrow>
        is_correct res \<and> guidance_level res = js ''celebration'' \<and> correct_answer res = Some (Num 3)"
      by blast
    from iff near3 have "result res = Correct" by blast
    with ok r show ?thesis by blast
  qed
  show "\<exists>res. validatePracticeStep to_string (js ''12 / 4'') (js ''division'') (js ''8'') 1 = Inr res \<and>
        result res = Incorrect \<and> mistake_type res = Some (js ''incorrect_calculation'') \<and>
        guidance_level res = js ''gentle'' \<and> correct_answer res = Some (Num 3)"
  proof -
    from t8 obtain res where
      r: "validatePracticeStep to_string (js ''12 / 4'') (js ''division'') (js ''8'') 1 = Inr res"
      and iff: "result res = Correct \<longleftrightarrow>
        (\<exists>y d. Num 3 = Num y \<and> to_double (8 - y) = Num d \<and> \<bar>d\<bar> < 5764607523034235 / 2 ^ 59)"
      and bad: "result res \<noteq> Correct \<longrightarrow> result res = Incorrect \<and> \<not> is_correct res"
      and gen: "result res \<noteq> Correct \<and>
           \<not> (cu CHR ''/'' = cu CHR ''+'' \<and> ((8::rat) = 12 \<or> (8::rat) = 4)) \<longrightarrow>
           mistake_type res = Some (js ''incorrect_calculation'') \<and> correct_answer res = Some (Num 3) \<and>
           guidance_level res = (if (1::int) = 1 then js ''gentle'' else js ''specific'')"
      by blast
    from iff far8 have nc: "result res \<noteq> Correct" by blast
    with gen op have "mistake_type res = Some (js ''incorrect_calculation'') \<and>
        correct_answer res = Some (Num 3) \<and> guidance_level res = js ''gentle''"
      by simp
    with bad nc r show ?thesis by blast
  qed
  show "\<exists>res. validatePracticeStep to_string (js ''5 + 3'') (js ''addition'') (js ''8.01'') 1 = Inr res \<and>
        result res = Correct \<and> guidance_level res = js ''celebration'' \<and>
        correct_answer res = Some (Num 8)"
  proof -
    from t801 obtain res where
      r: "validatePracticeStep to_string (js ''5 + 3'') (js ''addition'') (js ''8.01'') 1 = Inr res"
      and iff: "result res = Correct \<longleftrightarrow>
        (\<exists>y d. Num 8 = Num y \<and> to_double (4509229126904709 / 2 ^ 49 - y) = Num d
           \<and> \<bar>d\<bar> < 5764607523034235 / 2 ^ 59)"
      and ok: "result res = Correct \<longrightarrow>
        is_correct res \<and> guidance_level res = js ''celebration'' \<and> correct_answer res = Some (Num 8)"
      by blast
    from iff near801 have "result res = Correct" by blast
    with ok r show ?thesis by blast
  qed
qed

text \<open>
  C4. A blank answer asks for guidance. An answer that is not blank and in which
  \<open>parseFloat\<close> finds no number is graded like a wrong number: \<open>incorrect_calculation\<close>, with
  the correct answer revealed. No answer at all is graded \<open>invalid_input\<close>: \<open>parseFloat\<close>
  returns \<open>NaN\<close> where the source expects it to throw.
\<close>

theorem practice_input_handling:
  "((\<forall>ch \<in> set ui. is_space ch) \<longrightarrow>
      (\<exists>res. validatePracticeStep to_string prob operation ui step = Inr res \<and>
         result res = Needs_guidance \<and> \<not> is_correct res \<and> mistake_type res = None)) \<and>
   (regex_match (js ''+-*/'') prob = Some (m1, op, m3) \<and> \<not> (\<forall>ch \<in> set ui. is_space ch) \<and>
      parseFloat (trim ui) = NaN \<longrightarrow>
      (\<exists>res. validatePracticeStep to_string prob operation ui step = Inr res \<and>
         result res = Incorrect \<and> mistake_type res = Some (js ''incorrect_calculation'') \<and>
         correct_answer res \<noteq> None)) \<and>
   (\<forall>res. validatePracticeStep to_string prob operation ui step = Inr res \<longrightarrow>
      mistake_type res \<noteq> Some (js ''invalid_input''))"
proof (intro conjI impI allI)
  assume "\<forall>ch \<in> set ui. is_space ch"
  then have "trim ui = []" by (simp add: trim_Nil_iff)
  then show "\<exists>res. validatePracticeStep to_string prob operation ui step = Inr res \<and>
         result res = Needs_guidance \<and> \<not> is_correct res \<and> mistake_type res = None"
    by (simp add: validatePracticeStep_def base_result_def)
next
  assume a: "regex_match (js ''+-*/'') prob = Some (m1, op, m3) \<and> \<not> (\<forall>ch \<in> set ui. is_space ch) \<and>
      parseFloat (trim ui) = NaN"
  then have nb: "trim ui \<noteq> []" "ui \<noteq> []" by (auto simp: trim_Nil_iff)
  from a have "op \<in> set (js ''+-*/'')" by (auto dest: regex_match_operator)
  then obtain c where
    c: "practice_answer op (to_double (of_nat (nat_of_digits m1)))
          (to_double (of_nat (nat_of_digits m3))) = Inr c"
    using practice_answer_total by blast
  have nan: "js_sub NaN c = NaN" by (simp add: js_sub_def)
  show "\<exists>res. validatePracticeStep to_string prob operation ui step = Inr res \<and>
         result res = Incorrect \<and> mistake_type res = Some (js ''incorrect_calculation'') \<and>
         correct_answer res \<noteq> None"
    using a nb c
    by (simp add: validatePracticeStep_def try_parseFloat_def base_result_def js_eq_def nan Let_def)
next
  fix res
  assume "validatePracticeStep to_string prob operation ui step = Inr res"
  then show "mistake_type res \<noteq> Some (js ''invalid_input'')"
    by (auto simp: validatePracticeStep_def try_parseFloat_def base_result_def Let_def
        split: if_splits option.splits sum.splits)
qed

text \<open>The answers \<open>""\<close>, \<open>"   "\<close> and, on the problem \<open>"5 + 3"\<close>, \<open>"abc"\<close>.\<close>

theorem practice_input_handling_witness:
  "\<forall>to_string.
     (\<exists>res. validatePracticeStep to_string (js ''5 + 3'') (js ''addition'') [] 1 = Inr res \<and>
        result res = Needs_guidance) \<and>
     (\<exists>res. validatePracticeStep to_string (js ''5 + 3'') (js ''addition'') (js ''   '') 1 = Inr res \<and>
        result res = Needs_guidance) \<and>
     (\<exists>res. validatePracticeStep to_string (js ''5 + 3'') (js ''addition'') (js ''abc'') 1 = Inr res \<and>
        result res = Incorrect \<and> mistake_type res = Some (js ''incorrect_calculation'') \<and>
        mistake_type res \<noteq> Some (js ''invalid_input'') \<and> correct_answer res \<noteq> None)"
proof (intro allI)
  fix to_string :: "jsnum \<Rightarrow> jsstring"
  have m: "regex_match (js ''+-*/'') (js ''5 + 3'') = Some (js ''5'', cu CHR ''+'', js ''3'')"
    by (simp add: match_at_def is_digit_def is_space_def js_def cu_def)
  have abc: "parseFloat (trim (js ''abc'')) = NaN" "\<not> (\<forall>ch \<in> set (js ''abc''). is_space ch)"
    by (simp_all add: parseFloat_def trim_def parse_unsigned_def is_space_def is_digit_def
        js_def cu_def)
  have blank: "\<forall>ch \<in> set []. is_space ch" "\<forall>ch \<in> set (js ''   ''). is_space ch"
    by (simp_all add: is_space_def js_def)
  show "(\<exists>res. validatePracticeStep to_string (js ''5 + 3'') (js ''addition'') [] 1 = Inr res \<and>
        result res = Needs_guidance) \<and>
     (\<exists>res. validatePracticeStep to_string (js ''5 + 3'') (js ''addition'') (js ''   '') 1 = Inr res \<and>
        result res = Needs_guidance) \<and>
     (\<exists>res. validatePracticeStep to_string (js ''5 + 3'') (js ''addition'') (js ''abc'') 1 = Inr res \<and>
        result res = Incorrect \<and> mistake_type res = Some (js ''incorrect_calculation'') \<and>
        mistake_type res \<noteq> Some (js ''invalid_input'') \<and> correct_answer res \<noteq> None)"
    using practice_input_handling [of "[]" to_string "js ''5 + 3''" "js ''addition''" 1]
      practice_input_handling [of "js ''   ''" to_string "js ''5 + 3''" "js ''addition''" 1]
      practice_input_handling [of "js ''abc''" to_string "js ''5 + 3''" "js ''addition''" 1
         "js ''5''" "cu CHR ''+''" "js ''3''"]
      m abc blank
    by blast
qed

section \<open>The rate limiter\<close>

lemma isAllowed_eq:
  "isAllowed now calls =
     (if length (in_window now calls) < 5 then (True, in_window now calls @ [now])
      else (False, in_window now calls))"
  by (simp add: isAllowed_def in_window_def MAX_CALLS_def WINDOW_MS_def Let_def)

lemma getRemainingCalls_eq:
  "getRemainingCalls now calls = (max 0 (5 - int (length (in_window now calls))), in_window now calls)"
  by (simp add: getRemainingCalls_def in_window_def MAX_CALLS_def WINDOW_MS_def Let_def)

lemma length_in_window: "length (in_window now calls) \<le> length calls"
  by (simp add: in_window_def)

lemma recorded_length: "recorded calls \<Longrightarrow> length calls \<le> 5"
proof (induction rule: recorded.induct)
  case recorded_empty
  then show ?case by simp
next
  case (recorded_isAllowed calls now)
  then show ?case
    using length_in_window [of now calls] by (simp add: isAllowed_eq)
next
  case (recorded_getRemainingCalls calls now)
  then show ?case
    using length_in_window [of now calls] by (simp add: getRemainingCalls_eq)
qed

lemma in_window_full: "length (in_window now calls) = length calls \<Longrightarrow> in_window now calls = calls"
  unfolding in_window_def
  by (metis filter_True length_filter_less linorder_neq_iff)

lemma in_window_later:
  "now \<le> now' \<Longrightarrow> in_window now' (in_window now calls) = in_window now' calls"
  by (induction calls) (auto simp: in_window_def)

lemma in_window_none: "\<forall>t \<in> set calls. now - t \<ge> 30000 \<Longrightarrow> in_window now calls = []"
  by (induction calls) (auto simp: in_window_def)

lemma burst:
  assumes "t1 \<le> t2" "t2 \<le> t3" "t3 \<le> t4" "t4 \<le> t5" "t5 \<le> t6" "t6 - t1 < 30000"
  shows "calls_at [t1, t2, t3, t4, t5, t6] [] =
           ([True, True, True, True, True, False], [t1, t2, t3, t4, t5])"
  using assms by (simp add: isAllowed_eq in_window_def)

text \<open>
  C5 (as amended). A call is admitted exactly when fewer than 5 of the recorded times lie
  within the trailing 30000 ms, and an admitted call leaves the purged array with its own
  time appended. A rejected call leaves the array as it was (on every array the limiter
  can hold). Six calls within less than 30000 ms on the empty limiter admit the first
  five and reject the sixth; once every recorded time is 30000 ms old or older a call is
  admitted again and the array holds that call alone. \<open>getRemainingCalls\<close> returns
  \<open>max 0 (5 - n)\<close> for the \<open>n\<close> recorded times within the window; it records nothing, but
  it does store the purged array, which no later \<open>isAllowed\<close> or \<open>getRemainingCalls\<close> can
  tell from the array before, provided the clock has not run backwards.
\<close>

theorem rate_limiter:
  "(fst (isAllowed now calls) \<longleftrightarrow> length (in_window now calls) < 5) \<and>
   (fst (isAllowed now calls) \<longrightarrow> snd (isAllowed now calls) = in_window now calls @ [now]) \<and>
   (recorded calls \<and> \<not> fst (isAllowed now calls) \<longrightarrow> snd (isAllowed now calls) = calls) \<and>
   (t1 \<le> t2 \<and> t2 \<le> t3 \<and> t3 \<le> t4 \<and> t4 \<le> t5 \<and> t5 \<le> t6 \<and> t6 - t1 < 30000 \<longrightarrow>
      calls_at [t1, t2, t3, t4, t5, t6] [] =
        ([True, True, True, True, True, False], [t1, t2, t3, t4, t5])) \<and>
   ((\<forall>t \<in> set calls. now - t \<ge> 30000) \<longrightarrow> isAllowed now calls = (True, [now])) \<and>
   fst (getRemainingCalls now calls) = max 0 (5 - int (length (in_window now calls))) \<and>
   snd (getRemainingCalls now calls) = in_window now calls \<and>
   (now \<le> now' \<longrightarrow>
      isAllowed now' (snd (getRemainingCalls now calls)) = isAllowed now' calls \<and>
      fst (getRemainingCalls now' (snd (getRemainingCalls now calls)))
        = fst (getRemainingCalls now' calls))"
proof (intro conjI impI)
  show "fst (isAllowed now calls) \<longleftrightarrow> length (in_window now calls) < 5"
    by (simp add: isAllowed_eq)
  show "snd (isAllowed now calls) = in_window now calls @ [now]" if "fst (isAllowed now calls)"
    using that by (simp add: isAllowed_eq split: if_splits)
  show "snd (isAllowed now calls) = calls" if "recorded calls \<and> \<not> fst (isAllowed now calls)"
  proof -
    from that have "length calls \<le> 5" by (simp add: recorded_length)
    moreover from that have "\<not> length (in_window now calls) < 5"
      by (simp add: isAllowed_eq split: if_splits)
    ultimately have "length (in_window now calls) = length calls"
      using length_in_window [of now calls] by simp
    then have "in_window now calls = calls" by (rule in_window_full)
    with that show ?thesis by (simp add: isAllowed_eq split: if_splits)
  qed
  show "calls_at [t1, t2, t3, t4, t5, t6] [] =
        ([True, True, True, True, True, False], [t1, t2, t3, t4, t5])"
    if "t1 \<le> t2 \<and> t2 \<le> t3 \<and> t3 \<le> t4 \<and> t4 \<le> t5 \<and> t5 \<le> t6 \<and> t6 - t1 < 30000"
    using that by (intro burst) simp_all
  show "isAllowed now calls = (True, [now])" if "\<forall>t \<in> set calls. now - t \<ge> 30000"
    using in_window_none [OF that] by (simp add: isAllowed_eq)
  show "fst (getRemainingCalls now calls) = max 0 (5 - int (length (in_window now calls)))"
    by (simp add: getRemainingCalls_eq)
  show "snd (getRemainingCalls now calls) = in_window now calls"
    by (simp add: getRemainingCalls_eq)
  show "isAllowed now' (snd (getRemainingCalls now calls)) = isAllowed now' calls" if "now \<le> now'"
    using that by (simp add: getRemainingCalls_eq isAllowed_eq in_window_later)
  show "fst (getRemainingCalls now' (snd (getRemainingCalls now calls)))
        = fst (getRemainingCalls now' calls)" if "now \<le> now'"
    using that by (simp add: getRemainingCalls_eq in_window_later)
qed

theorem rate_limiter_witness:
  "calls_at [0, 0, 0, 0, 0, 0] [] = ([True, True, True, True, True, False], [0, 0, 0, 0, 0])
   \<and> snd (isAllowed 10 [0, 0, 0, 0, 0]) = [0, 0, 0, 0, 0]
   \<and> isAllowed 30000 [0, 0, 0, 0, 0] = (True, [30000])
   \<and> isAllowed 50000 (snd (getRemainingCalls 40000 [20000])) = isAllowed 50000 [20000]"
proof -
  have r: "recorded [0, 0, 0, 0, 0]"
    using recorded_isAllowed [of "[0, 0, 0, 0]" 0]
      recorded_isAllowed [of "[0, 0, 0]" 0] recorded_isAllowed [of "[0, 0]" 0]
      recorded_isAllowed [of "[0]" 0] recorded_isAllowed [of "[]" 0] recorded_empty
    by (simp add: isAllowed_eq in_window_def)
  have rej: "\<not> fst (isAllowed 10 [0, 0, 0, 0, 0])"
    by (simp add: isAllowed_eq in_window_def)
  have old: "\<forall>t \<in> set [0, 0, 0, 0, 0 :: int]. 30000 - t \<ge> 30000"
    by simp
  have order: "(0::int) \<le> 0 \<and> (0::int) \<le> 0 \<and> (0::int) \<le> 0 \<and> (0::int) \<le> 0 \<and> (0::int) \<le> 0
      \<and> (0::int) - 0 < 30000" "(40000::int) \<le> 50000"
    by simp_all
  note a = rate_limiter [of 10 "[0, 0, 0, 0, 0]" 0 0 0 0 0 0 10]
  note b = rate_limiter [of 30000 "[0, 0, 0, 0, 0]" 0 0 0 0 0 0 30000]
  note c = rate_limiter [of 40000 "[20000]" 0 0 0 0 0 0 50000]
  from a order(1) have 1: "calls_at [0, 0, 0, 0, 0, 0] []
      = ([True, True, True, True, True, False], [0, 0, 0, 0, 0])" by blast
  from a r rej have 2: "snd (isAllowed 10 [0, 0, 0, 0, 0]) = [0, 0, 0, 0, 0]" by blast
  from b old have 3: "isAllowed 30000 [0, 0, 0, 0, 0] = (True, [30000])" by blast
  from c order(2) have 4: "isAllowed 50000 (snd (getRemainingCalls 40000 [20000]))
      = isAllowed 50000 [20000]" by blast
  from 1 2 3 4 show ?thesis by blast
qed

text \<open>
  C5 as the specification states it: \<open>getRemainingCalls\<close> changes the state. After one
  admitted call at time 0, asking for the quota at time 40000 empties the array.
\<close>

theorem getRemainingCalls_purges_counterexample:
  "snd (isAllowed 0 []) = [0] \<and> getRemainingCalls 40000 (snd (isAllowed 0 [])) = (5, [])
   \<and> snd (getRemainingCalls 40000 (snd (isAllowed 0 []))) \<noteq> snd (isAllowed 0 [])"
  by (simp add: isAllowed_def getRemainingCalls_def MAX_CALLS_def WINDOW_MS_def)


section \<open>The interruption classifier\<close>

lemma word_then_space_iff: "word_then_space s w \<longleftrightarrow> begins_with_word s w"
proof
  assume a: "word_then_space s w"
  then obtain u where u: "map ignore_case s = w @ u"
    by (auto simp: word_then_space_def starts_with_iff)
  from a obtain c r where d: "drop (length w) s = c # r" and sp: "is_space c"
    by (auto simp: word_then_space_def split: list.splits)
  have "map ignore_case (take (length w) s) = take (length w) (map ignore_case s)"
    by (simp add: take_map)
  also have "\<dots> = w" by (simp add: u)
  finally have v: "map ignore_case (take (length w) s) = w" .
  have "s = take (length w) s @ c # r"
    using d append_take_drop_id [of "length w" s] by simp
  with v sp show "begins_with_word s w"
    unfolding begins_with_word_def by blast
next
  assume "begins_with_word s w"
  then obtain v c r where s: "s = v @ c # r" and v: "map ignore_case v = w" and sp: "is_space c"
    by (auto simp: begins_with_word_def)
  from v have l: "length w = length v" by auto
  have "map ignore_case s = w @ map ignore_case (c # r)" by (simp add: s v)
  then have "starts_with (map ignore_case s) w" by (simp only: starts_with_append)
  moreover have "drop (length w) s = c # r" by (simp add: s l)
  ultimately show "word_then_space s w"
    using sp by (simp add: word_then_space_def)
qed

lemma occurs_in_longer: "occurs_in (k @ k') s \<Longrightarrow> occurs_in k s"
  unfolding occurs_in_def by (metis append.assoc)

lemma demo_keywords_lexicon:
  "list_ex (\<lambda>keyword. str_includes s keyword) DEMO_KEYWORDS
     \<longleftrightarrow> (\<exists>k \<in> set continuation_lexicon. occurs_in k s)"
proof -
  have "occurs_in (js ''continue demo'') s \<Longrightarrow> occurs_in (js ''continue'') s"
    using occurs_in_longer [of "js ''continue''" "js '' demo''" s] by (simp add: js_def)
  then show ?thesis
    unfolding list_ex_iff DEMO_KEYWORDS_def continuation_lexicon_def
    by (auto simp: str_includes_iff occurs_in_def [symmetric])
qed

lemma question_indicators_lexicon:
  "list_ex (\<lambda>indicator. str_includes s indicator) QUESTION_INDICATORS
     \<longleftrightarrow> (\<exists>k \<in> set interrogative_lexicon. occurs_in k s) \<or> occurs_in (js ''?'') s"
  unfolding list_ex_iff QUESTION_INDICATORS_def interrogative_lexicon_def
  by (auto simp: str_includes_iff occurs_in_def [symmetric])

text \<open>
  C10. With \<open>content\<close> the message in lower case, as the host's \<open>toLowerCase\<close> gives it, and
  trimmed: a content shorter than 3 characters (UTF-16 code units, which is what the
  host's \<open>length\<close> counts) is not a query; a content in which a keyword of the
  continuation lexicon occurs is not a query, whatever else occurs in it; every other
  content is a query exactly when a question mark occurs in it, or a keyword of the
  interrogative lexicon occurs in it, or it begins with one of the interrogative words
  followed by white space.
\<close>

theorem isUserQuery_classification:
  assumes "content = trim (toLowerCase message)"
  shows "(length content < 3 \<longrightarrow> \<not> isUserQuery toLowerCase message) \<and>
    ((\<exists>k \<in> set continuation_lexicon. occurs_in k content) \<longrightarrow>
       \<not> isUserQuery toLowerCase message) \<and>
    (\<not> length content < 3 \<and> \<not> (\<exists>k \<in> set continuation_lexicon. occurs_in k content) \<longrightarrow>
       (isUserQuery toLowerCase message \<longleftrightarrow>
          occurs_in (js ''?'') content \<or>
          (\<exists>k \<in> set interrogative_lexicon. occurs_in k content) \<or>
          (\<exists>w \<in> set QUESTION_PREFIXES. begins_with_word content w)))"
proof -
  have q: "str_includes content (js ''?'') = occurs_in (js ''?'') content"
    by (simp only: str_includes_iff occurs_in_def)
  have p: "list_ex (word_then_space content) QUESTION_PREFIXES
      \<longleftrightarrow> (\<exists>w \<in> set QUESTION_PREFIXES. begins_with_word content w)"
    by (simp add: list_ex_iff word_then_space_iff)
  show ?thesis
    unfolding isUserQuery_def Let_def assms [symmetric]
      demo_keywords_lexicon question_indicators_lexicon q p
    by auto
qed

lemma lower_examples:
  "js ''can you continue?'' = trim (ascii_lower (js ''Can you continue?''))"
  "js ''what is 5 + 3'' = trim (ascii_lower (js ''What is 5 + 3''))"
  "js ''ok'' = trim (ascii_lower (js '' ok ''))"
  "js ''is it right'' = trim (ascii_lower (js ''is it right''))"
  by (simp_all add: trim_def ascii_lower_def ignore_case_def is_space_def js_def)

text \<open>
  On ASCII text: a question that asks to continue is not a query; a question, a short
  word and a text that begins with \<open>is\<close> are classified as the theorem says.
\<close>

theorem isUserQuery_classification_witness:
  "\<not> isUserQuery ascii_lower (js ''Can you continue?'')
   \<and> isUserQuery ascii_lower (js ''What is 5 + 3'')
   \<and> \<not> isUserQuery ascii_lower (js '' ok '')
   \<and> isUserQuery ascii_lower (js ''is it right'')"
proof -
  have 1: "occurs_in (js ''continue'') (js ''can you continue?'')"
    unfolding occurs_in_def
    by (rule exI [of _ "js ''can you ''"], rule exI [of _ "js ''?''"]) (simp add: js_def)
  have 2: "occurs_in (js ''what'') (js ''what is 5 + 3'')"
    unfolding occurs_in_def
    by (rule exI [of _ "[]"], rule exI [of _ "js '' is 5 + 3''"]) (simp add: js_def)
  have n2: "\<not> (\<exists>k \<in> set continuation_lexicon. occurs_in k (js ''what is 5 + 3''))"
    by (simp add: continuation_lexicon_def occurs_in_def str_includes_iff [symmetric] js_def)
  have 4: "begins_with_word (js ''is it right'') (js ''is'')"
    unfolding begins_with_word_def
    by (rule exI [of _ "js ''is''"], rule exI [of _ "32"], rule exI [of _ "js ''it right''"])
      (simp add: is_space_def ignore_case_def js_def)
  have n4: "\<not> (\<exists>k \<in> set continuation_lexicon. occurs_in k (js ''is it right''))"
    by (simp add: continuation_lexicon_def occurs_in_def str_includes_iff [symmetric] js_def)
  have k: "js ''continue'' \<in> set continuation_lexicon" "js ''what'' \<in> set interrogative_lexicon"
    "js ''is'' \<in> set QUESTION_PREFIXES"
    by (simp_all add: continuation_lexicon_def interrogative_lexicon_def QUESTION_PREFIXES_def)
  have l: "length (js ''ok'') < 3" by (simp add: js_def)
  have l2: "\<not> length (js ''what is 5 + 3'') < 3" "\<not> length (js ''is it right'') < 3"
    by (simp_all add: js_def)
  note e = lower_examples
  have a: "\<not> isUserQuery ascii_lower (js ''Can you continue?'')"
    using isUserQuery_classification [where toLowerCase = ascii_lower, OF e(1)] 1 k(1) by blast
  have b: "isUserQuery ascii_lower (js ''What is 5 + 3'')"
    using isUserQuery_classification [where toLowerCase = ascii_lower, OF e(2)] 2 n2 k(2) l2(1) by blast
  have c: "\<not> isUserQuery ascii_lower (js '' ok '')"
    using isUserQuery_classification [where toLowerCase = ascii_lower, OF e(3)] l by blast
  have d: "isUserQuery ascii_lower (js ''is it right'')"
    using isUserQuery_classification [where toLowerCase = ascii_lower, OF e(4)] 4 n4 k(3) l2(2) by blast
  from a b c d show ?thesis by blast
qed
section \<open>The tool context\<close>

lemma reachable_no_demoState: "reachable c \<Longrightarrow> demoState c = None"
  by (induction rule: reachable.induct)
    (simp_all add: initial_context_def setActiveTool_def clearActiveTool_def
      context_pauseDemo_def context_resumeDemo_def setChatBlocked_def
      registerToolCompletion_def unregisterToolCompletion_def)

lemma is_demonstration_iff:
  "is_demonstration config \<longleftrightarrow> (\<exists>cfg. config = Some cfg \<and> tool_type cfg = Demonstrate_number_line)"
proof (cases config)
  case None
  then show ?thesis by (simp add: is_demonstration_def)
next
  case (Some cfg)
  then show ?thesis
    by (cases "tool_type cfg") (simp_all add: is_demonstration_def type_name_def js_def)
qed

text \<open>
  C8. In every state the provider can reach, and after each of \<open>setActiveTool\<close>,
  \<open>clearActiveTool\<close>, \<open>pauseDemo\<close> and \<open>resumeDemo\<close> from such a state, there is no
  \<open>DemoState\<close> unless the active tool is a demonstration. The provider in fact never
  stores a \<open>DemoState\<close>: its only assignment to \<open>demoState\<close> is the \<open>null\<close> of
  \<open>clearActiveTool\<close>.
\<close>

theorem context_demo_invariant:
  assumes "reachable c"
  shows "demo_invariant c \<and> demoState c = None \<and>
    demo_invariant (setActiveTool config c) \<and>
    demo_invariant (clearActiveTool c) \<and>
    demo_invariant (fst (context_pauseDemo reason has_control c)) \<and>
    demo_invariant (fst (context_resumeDemo has_control c))"
proof -
  have inv: "demo_invariant c'" if "reachable c'" for c'
    using reachable_no_demoState [OF that] by (simp add: demo_invariant_def)
  from assms show ?thesis
    by (intro conjI inv reachable_no_demoState reachable.intros)
qed

text \<open>
  A demonstration is activated and paused, then a calculator replaces it: the invariant
  holds after the replacement.
\<close>

theorem context_demo_invariant_witness:
  "demo_invariant (setActiveTool (Some calculator_config)
     (fst (context_pauseDemo (js ''why'') True (setActiveTool (Some demo_config) initial_context))))
   \<and> contextDemoPaused
       (fst (context_pauseDemo (js ''why'') True (setActiveTool (Some demo_config) initial_context)))
   \<and> is_demonstration (Some demo_config) \<and> \<not> is_demonstration (Some calculator_config)"
proof -
  have r: "reachable (fst (context_pauseDemo (js ''why'') True
      (setActiveTool (Some demo_config) initial_context)))"
    by (intro reachable.intros)
  have d: "is_demonstration (Some demo_config)" "\<not> is_demonstration (Some calculator_config)"
    by (simp_all add: is_demonstration_iff demo_config_def calculator_config_def)
  have p: "contextDemoPaused
       (fst (context_pauseDemo (js ''why'') True (setActiveTool (Some demo_config) initial_context)))"
    using d(1) by (simp add: context_pauseDemo_def setActiveTool_def)
  from context_demo_invariant [OF r, of "Some calculator_config"] d p show ?thesis by blast
qed

section \<open>Pausing and resuming\<close>

lemma after_render_same: "after_render s s = s"
  by (simp add: after_render_def)

lemma replace_first_prefix:
  assumes "pat \<noteq> []"
  shows "replace_first pat [] (pat @ m) = m"
proof -
  from assms obtain c s where cs: "pat @ m = c # s" by (cases pat) auto
  have "starts_with (c # s) pat" using starts_with_append [of pat m] cs by simp
  moreover have "drop (length pat) (c # s) = m" using cs by (metis append_eq_conv_conj)
  ultimately show ?thesis by (simp add: cs)
qed

lemma js_space: "js (CHR '' '' # s) = 32 # js s"
  by (simp add: js_def)

lemma clean_pin: "replace_first (glyph_pin @ js '' '') [] (glyph_pin @ 32 # m) = m"
  using replace_first_prefix [of "glyph_pin @ js '' ''" m]
  by (simp add: glyph_pin_def js_space js_Nil)

lemma sendAndCollectMessage_pin:
  "sendAndCollectMessage (glyph_pin @ 32 # m) s =
     s \<lparr> messageHistory := messageHistory s @ [m],
         outbox := outbox s @ emitted (props s) [m] \<rparr>"
  using clean_pin [of m] by (simp add: sendAndCollectMessage_def emitted_def js_space js_Nil)

lemmas pin_simps = sendAndCollectMessage_pin js_space js_Nil

lemma emitted_append: "emitted p (ms @ ns) = emitted p ms @ emitted p ns"
  by (simp add: emitted_def)

lemma demo_effect_paused: "isDemoPaused s \<Longrightarrow> demo_effect s = s"
  by (simp add: demo_effect_def split: option.splits prod.splits)

lemma pauseDemo_eq:
  assumes "demoMode (props s)" "\<not> isDemoComplete s"
  shows "pauseDemo reason now s =
     s \<lparr> isDemoPaused := True, pauseReasonText := reason,
         savedDemoState := Some \<lparr> currentStep = demoStep s,
           nextStepDelay = (if demoStep s = 0 then 2000 else 1200),
           pauseReason = Some reason, resumeAt = Some now \<rparr>,
         messageHistory := messageHistory s @ [glyph_stop @ js '' Demo paused - '' @ reason],
         outbox := outbox s
           @ (if onDemoPause (props s)
              then [DemoPaused \<lparr> currentStep = demoStep s,
                      nextStepDelay = (if demoStep s = 0 then 2000 else 1200),
                      pauseReason = Some reason, resumeAt = Some now \<rparr>]
              else [])
           @ emitted (props s) [glyph_stop @ js '' Demo paused - '' @ reason] \<rparr>"
  using assms by (simp add: pauseDemo_def Let_def pin_simps)

lemma pause_eq:
  assumes "demoMode (props s)" "\<not> isDemoComplete s"
  shows "pause reason now s =
     (pauseDemo reason now s)
       \<lparr> timers := (if isDemoPaused s then timers s
                    else filter (\<lambda>t. \<not> is_step_timer t) (timers s)) \<rparr>"
  using assms
  by (simp add: pause_def after_render_def demo_deps_def pauseDemo_eq demo_effect_paused
      cleanup_def)


lemma pause_fields:
  assumes "demoMode (props s)" "\<not> isDemoComplete s"
  shows "props (pause reason now s) = props s"
    and "isDemoPaused (pause reason now s)"
    and "isDemoComplete (pause reason now s) = isDemoComplete s"
    and "demoStep (pause reason now s) = demoStep s"
    and "savedDemoState (pause reason now s) = Some (saved_at (demoStep s) reason now)"
    and "messageHistory (pause reason now s) = messageHistory s @ [pause_message reason]"
    and "outbox (pause reason now s) =
           outbox s
           @ (if onDemoPause (props s) then [DemoPaused (saved_at (demoStep s) reason now)] else [])
           @ emitted (props s) [pause_message reason]"
    and "timers (pause reason now s) =
           (if isDemoPaused s then timers s else filter (\<lambda>t. \<not> is_step_timer t) (timers s))"
  using assms by (simp_all add: pause_eq pauseDemo_eq saved_at_def pause_message_def)

lemma pause_pause:
  assumes "demoMode (props s)" "\<not> isDemoComplete s"
  shows "isDemoPaused (pause r1 t1 s) \<and> isDemoPaused (pause r2 t2 (pause r1 t1 s)) \<and>
    savedDemoState (pause r1 t1 s) = Some (saved_at (demoStep s) r1 t1) \<and>
    savedDemoState (pause r2 t2 (pause r1 t1 s)) = Some (saved_at (demoStep s) r2 t2) \<and>
    messageHistory (pause r2 t2 (pause r1 t1 s))
      = messageHistory (pause r1 t1 s) @ [pause_message r2] \<and>
    outbox (pause r2 t2 (pause r1 t1 s)) =
      outbox (pause r1 t1 s)
      @ (if onDemoPause (props s) then [DemoPaused (saved_at (demoStep s) r2 t2)] else [])
      @ emitted (props s) [pause_message r2] \<and>
    timers (pause r2 t2 (pause r1 t1 s)) = timers (pause r1 t1 s) \<and>
    demoStep (pause r2 t2 (pause r1 t1 s)) = demoStep s"
proof -
  let ?s1 = "pause r1 t1 s"
  have 1: "demoMode (props ?s1)" "\<not> isDemoComplete ?s1" "isDemoPaused ?s1"
    "props ?s1 = props s" "demoStep ?s1 = demoStep s"
    using assms by (simp_all add: pause_fields)
  have a: "isDemoPaused (pause r2 t2 ?s1)" using 1 by (simp add: pause_fields)
  have b: "savedDemoState ?s1 = Some (saved_at (demoStep s) r1 t1)"
    using assms by (simp add: pause_fields)
  have c: "savedDemoState (pause r2 t2 ?s1) = Some (saved_at (demoStep s) r2 t2)"
    using 1 by (simp add: pause_fields)
  have d: "messageHistory (pause r2 t2 ?s1) = messageHistory ?s1 @ [pause_message r2]"
    using 1(1,2) by (rule pause_fields)
  have e: "outbox (pause r2 t2 ?s1) =
           outbox ?s1
           @ (if onDemoPause (props s) then [DemoPaused (saved_at (demoStep s) r2 t2)] else [])
           @ emitted (props s) [pause_message r2]"
    using pause_fields(7) [OF 1(1,2)] 1(4,5) by simp
  have f: "timers (pause r2 t2 ?s1) = timers ?s1"
    using pause_fields(8) [OF 1(1,2)] 1(3) by simp
  have g: "demoStep (pause r2 t2 ?s1) = demoStep s"
    using pause_fields(4) [OF 1(1,2)] 1(5) by simp
  from 1(3) a b c d e f g show ?thesis by blast
qed

text \<open>
  C3 (as amended). In demonstration mode and before completion, a second pause is not a
  no-op. The demonstration stays paused, the saved state keeps \<open>currentStep\<close> and
  \<open>nextStepDelay\<close>, no timer is added or removed and \<open>demoStep\<close> stays; but the saved
  \<open>pauseReason\<close> and resume marker are those of the second call (so the saved state is the
  same only when both calls have the same reason and clock reading), \<open>onDemoPause\<close> is
  called again, and one more pause narration is collected and sent.
\<close>

theorem pause_twice:
  assumes "demoMode (props s)" "\<not> isDemoComplete s"
  shows "isDemoPaused (pause r1 t1 s) \<and> isDemoPaused (pause r2 t2 (pause r1 t1 s)) \<and>
    savedDemoState (pause r1 t1 s) = Some (saved_at (demoStep s) r1 t1) \<and>
    savedDemoState (pause r2 t2 (pause r1 t1 s)) = Some (saved_at (demoStep s) r2 t2) \<and>
    (savedDemoState (pause r2 t2 (pause r1 t1 s)) = savedDemoState (pause r1 t1 s)
       \<longleftrightarrow> r2 = r1 \<and> t2 = t1) \<and>
    messageHistory (pause r2 t2 (pause r1 t1 s))
      = messageHistory (pause r1 t1 s) @ [pause_message r2] \<and>
    outbox (pause r2 t2 (pause r1 t1 s)) =
      outbox (pause r1 t1 s)
      @ (if onDemoPause (props s) then [DemoPaused (saved_at (demoStep s) r2 t2)] else [])
      @ emitted (props s) [pause_message r2] \<and>
    timers (pause r2 t2 (pause r1 t1 s)) = timers (pause r1 t1 s) \<and>
    demoStep (pause r2 t2 (pause r1 t1 s)) = demoStep s \<and>
    pause r2 t2 (pause r1 t1 s) \<noteq> pause r1 t1 s"
proof -
  note pp = pause_pause [OF assms, of r1 t1 r2 t2]
  have eq: "savedDemoState (pause r2 t2 (pause r1 t1 s)) = savedDemoState (pause r1 t1 s)
       \<longleftrightarrow> r2 = r1 \<and> t2 = t1"
    using pp by (auto simp: saved_at_def)
  have "messageHistory (pause r2 t2 (pause r1 t1 s)) \<noteq> messageHistory (pause r1 t1 s)"
    using pp by simp
  then have ne: "pause r2 t2 (pause r1 t1 s) \<noteq> pause r1 t1 s" by auto
  from pp eq ne show ?thesis by blast
qed

lemma mount_fields:
  "props (mount p) = p" "\<not> isDemoComplete (mount p)" "savedDemoState (mount p) = None"
  "\<not> isDemoPaused (mount p)"
  by (simp_all add: mount_def demo_effect_def initial_instruction_def initial_def
      sendAndCollectMessage_def setTimeout_def Let_def split: option.splits prod.splits)

text \<open>The demonstration of \<open>"4 + 2"\<close>, paused twice right after its start.\<close>

theorem pause_twice_witness:
  "savedDemoState (pause (js ''why'') 2000 (pause (js ''why'') 1000 (mount demo_props)))
     = Some \<lparr> currentStep = 0, nextStepDelay = 2000, pauseReason = Some (js ''why''),
              resumeAt = Some 2000 \<rparr>
   \<and> messageHistory (pause (js ''why'') 2000 (pause (js ''why'') 1000 (mount demo_props)))
     = messageHistory (pause (js ''why'') 1000 (mount demo_props)) @ [glyph_stop @ js '' Demo paused - why'']"
proof -
  have d: "demoMode (props (mount demo_props))" "\<not> isDemoComplete (mount demo_props)"
    by (simp_all add: mount_fields demo_props_def)
  have k: "demoStep (mount demo_props) = 0"
    by (simp add: mount_def demo_effect_def initial_instruction_def initial_def
        sendAndCollectMessage_def setTimeout_def Let_def demo_props_def parseNumbers_def
        match_at_def is_digit_def is_space_def js_def cu_def)
  from pause_twice [OF d, of "js ''why''" 1000 "js ''why''" 2000] show ?thesis
    by (simp add: k saved_at_def pause_message_def js_append [symmetric])
qed

text \<open>
  C3 as the specification states it fails: a second pause at a later time changes the
  saved state, and a second pause at the same time with the same reason still narrates
  once more.
\<close>

theorem pause_twice_counterexample:
  "savedDemoState (pause (js ''why'') 2000 (pause (js ''why'') 1000 (mount demo_props)))
     \<noteq> savedDemoState (pause (js ''why'') 1000 (mount demo_props))
   \<and> length (messageHistory (pause (js ''why'') 1000 (pause (js ''why'') 1000 (mount demo_props))))
     = length (messageHistory (pause (js ''why'') 1000 (mount demo_props))) + 1"
proof -
  have d: "demoMode (props (mount demo_props))" "\<not> isDemoComplete (mount demo_props)"
    by (simp_all add: mount_fields demo_props_def)
  show ?thesis
    using pause_pause [OF d, of "js ''why''" 1000 "js ''why''" 2000]
      pause_pause [OF d, of "js ''why''" 1000 "js ''why''" 1000]
    by (simp add: saved_at_def)
qed

lemma fire_saved: "savedDemoState (fire t s) = savedDemoState s"
  by (cases t; cases "snd t")
    (auto simp: fire_def after_render_def demo_effect_def cleanup_def
      sendAndCollectMessage_def setTimeout_def Let_def split: option.splits prod.splits)

lemma run_timers_saved: "savedDemoState (run_timers n s) = savedDemoState s"
  by (induction n s rule: run_timers.induct) (auto simp: fire_saved split: list.splits)

text \<open>
  C9. Without a saved state \<open>resumeDemo\<close> of the number line returns at its guard: the
  component's state, its narration, what it has sent and its timers are what they were,
  also after the render. \<open>resumeDemo\<close> of the tool context, without a \<open>DemoState\<close>,
  leaves the context as it was and does not call the number line's control.
\<close>

theorem resume_without_saved_state:
  "(savedDemoState s = None \<longrightarrow>
      resumeDemo s = s \<and> resume s = s \<and> messageHistory (resume s) = messageHistory s \<and>
      outbox (resume s) = outbox s \<and> timers (resume s) = timers s) \<and>
   (demoState c = None \<longrightarrow> context_resumeDemo has_control c = (c, []))"
  by (simp add: resumeDemo_def resume_def after_render_same context_resumeDemo_def)

text \<open>A running demonstration that was never paused, and a context with a demonstration.\<close>

theorem resume_without_saved_state_witness:
  "resume (run_timers 1 (mount demo_props)) = run_timers 1 (mount demo_props)
   \<and> resumeDemo (run_timers 1 (mount demo_props)) = run_timers 1 (mount demo_props)
   \<and> context_resumeDemo True (setActiveTool (Some demo_config) initial_context)
       = (setActiveTool (Some demo_config) initial_context, [])"
proof -
  have s: "savedDemoState (run_timers 1 (mount demo_props)) = None"
    by (simp only: run_timers_saved mount_fields)
  have c: "demoState (setActiveTool (Some demo_config) initial_context) = None"
    by (simp add: setActiveTool_def initial_context_def)
  from resume_without_saved_state
    [of "run_timers 1 (mount demo_props)" "setActiveTool (Some demo_config) initial_context" True]
    s c show ?thesis by blast
qed


section \<open>The demonstration run\<close>

lemma parseNumbers_nonneg: "parseNumbers x = Some (a, b, op) \<Longrightarrow> 0 \<le> a \<and> 0 \<le> b"
  by (auto simp: parseNumbers_def split: if_splits option.splits)

lemma run_timers_add: "run_timers (m + n) s = run_timers n (run_timers m s)"
proof (induction m s rule: run_timers.induct)
  case (1 s)
  then show ?case by simp
next
  case (2 m s)
  show ?case
  proof (cases "timers s")
    case Nil
    then show ?thesis by (cases n) simp_all
  next
    case (Cons t ts)
    with 2 show ?thesis by simp
  qed
qed

lemma run_timers_one: "timers s = t # ts \<Longrightarrow> run_timers 1 s = fire t s"
  unfolding One_nat_def by simp

lemma mount_running:
  assumes "parseNumbers (problem p) = Some (a, b, op)" "demoMode p"
  shows "running p a op b 0 (mount p)"
  using assms
  by (simp add: running_def mount_def initial_instruction_def initial_def demo_effect_def
      Let_def pin_simps setTimeout_def emitted_def prologue_def)

lemma tick_running:
  assumes "parseNumbers (problem p) = Some (a, b, op)" "demoMode p"
    and "running p a op b k s" "Suc k \<le> nat b"
  shows "running p a op b (Suc k) (run_timers 1 s)"
proof -
  let ?t = "(if k = 0 then 2000 else 1200 :: nat, SetDemoStep (Suc k))"
  from assms(3) have tm: "timers s = [?t]" by (simp add: running_def)
  have le: "int (Suc k) \<le> b" using assms(4) by linarith
  have "running p a op b (Suc k) (fire ?t s)"
    using assms(1,2,3) le
    by (simp add: running_def fire_def after_render_def demo_deps_def cleanup_def
        is_step_timer_def demo_effect_def Let_def pin_simps setTimeout_def
        emitted_def)
  then show ?thesis by (simp only: run_timers_one [OF tm])
qed

lemma ticks_running:
  assumes "parseNumbers (problem p) = Some (a, b, op)" "demoMode p"
  shows "k \<le> nat b \<Longrightarrow> running p a op b k (run_timers k (mount p))"
proof (induction k)
  case 0
  then show ?case using mount_running [OF assms] by simp
next
  case (Suc k)
  then have "running p a op b k (run_timers k (mount p))" by simp
  from tick_running [OF assms this] Suc.prems
  have "running p a op b (Suc k) (run_timers 1 (run_timers k (mount p)))" by simp
  then show ?case using run_timers_add [of k 1 "mount p"] by simp
qed


lemma last_tick:
  assumes "parseNumbers (problem p) = Some (a, b, op)" "demoMode p"
    and "running p a op b (nat b) s"
  shows "props (run_timers 1 s) = p \<and>
    isDemoComplete (run_timers 1 s) \<and>
    demoStep (run_timers 1 s) = Suc (nat b) \<and>
    messageHistory (run_timers 1 s) = messageHistory s @ [final_message a op b] \<and>
    timers (run_timers 1 s) = [(2000, FinalMessage (demo_result a op b) (messageHistory s))] \<and>
    outbox (run_timers 1 s) = emitted p (messageHistory s @ [final_message a op b])"
proof -
  let ?t = "(if nat b = 0 then 2000 else 1200 :: nat, SetDemoStep (Suc (nat b)))"
  from assms(3) have tm: "timers s = [?t]" by (simp add: running_def)
  have gt: "\<not> int (Suc (nat b)) \<le> b" by linarith
  have "props (fire ?t s) = p \<and>
    isDemoComplete (fire ?t s) \<and>
    demoStep (fire ?t s) = Suc (nat b) \<and>
    messageHistory (fire ?t s) = messageHistory s @ [final_message a op b] \<and>
    timers (fire ?t s) = [(2000, FinalMessage (demo_result a op b) (messageHistory s))] \<and>
    outbox (fire ?t s) = emitted p (messageHistory s @ [final_message a op b])"
    using assms gt
    by (simp add: running_def fire_def after_render_def demo_deps_def cleanup_def
        is_step_timer_def demo_effect_def Let_def pin_simps setTimeout_def
        emitted_def)
  then show ?thesis by (simp only: run_timers_one [OF tm])
qed

lemma final_message_timer:
  assumes "props s = p" "timers s = [(2000, FinalMessage r h)]"
    and "outbox s = emitted p (messageHistory s)"
  shows "props (run_timers 1 s) = p \<and>
    isDemoComplete (run_timers 1 s) = isDemoComplete s \<and>
    demoStep (run_timers 1 s) = demoStep s \<and>
    messageHistory (run_timers 1 s) = messageHistory s @ [completion_message (problem p) r] \<and>
    timers (run_timers 1 s) = [(500, Completion r h)] \<and>
    outbox (run_timers 1 s)
      = emitted p (messageHistory s @ [completion_message (problem p) r])"
  using assms
  by (simp add: run_timers_one [OF assms(2)] fire_def pin_simps setTimeout_def
      emitted_def)

lemma completion_timer:
  assumes "props s = p" "timers s = [(500, Completion r h)]"
  shows "props (run_timers 1 s) = p \<and>
    isDemoComplete (run_timers 1 s) = isDemoComplete s \<and>
    demoStep (run_timers 1 s) = demoStep s \<and>
    messageHistory (run_timers 1 s) = messageHistory s \<and>
    timers (run_timers 1 s) = [] \<and>
    outbox (run_timers 1 s)
      = outbox s @ [Answer r h] @ (if onDemoComplete p then [DemoCompleted] else [])"
  using assms by (simp add: run_timers_one [OF assms(2)] fire_def)

lemma length_demo_narration: "0 \<le> b \<Longrightarrow> length (demo_narration a op b) = nat b + 2"
  by (simp add: demo_narration_def)

lemma butlast_demo_narration:
  "butlast (demo_narration a op b)
     = start_message a # map (step_message a op b) [1 ..< Suc (nat b)]"
  by (simp add: demo_narration_def butlast_append)

text \<open>
  C2. A demonstration on a problem that parses to \<open>(a, op, b)\<close>, left alone, lets
  \<open>b + 3\<close> timers go off and then has none pending. Its effect narrates \<open>b + 2\<close> messages:
  the start message, one message for each of the \<open>b\<close> steps, and the final message. The
  collected history is the message of the mount effect (when messages are sent at all),
  these \<open>b + 2\<close> messages, and the completion message. \<open>onAnswer\<close> is called once, with
  the result \<open>a op b\<close>; the history it is given is the one the last run of the effect
  captured: it ends with the message of step \<open>b\<close>, and lacks the final message and the
  completion message.
\<close>

theorem demo_run:
  assumes "parseNumbers (problem p) = Some (a, b, op)" and "demoMode p"
    and "r = demo_result a op b"
    and "final = run_timers (nat b + 3) (mount p)"
  shows "timers final = [] \<and> isDemoComplete final \<and> demoStep final = nat b + 1 \<and>
    length (demo_narration a op b) = nat b + 2 \<and>
    messageHistory final
      = prologue p @ demo_narration a op b @ [completion_message (problem p) r] \<and>
    outbox final
      = emitted p (messageHistory final)
        @ [Answer r (prologue p @ butlast (demo_narration a op b))]
        @ (if onDemoComplete p then [DemoCompleted] else []) \<and>
    prologue p @ butlast (demo_narration a op b) \<noteq> messageHistory final"
proof -
  let ?s0 = "run_timers (nat b) (mount p)"
  let ?s1 = "run_timers 1 ?s0"
  let ?s2 = "run_timers 1 ?s1"
  let ?s3 = "run_timers 1 ?s2"
  let ?H = "prologue p @ butlast (demo_narration a op b)"
  have b0: "0 \<le> b" using assms(1) by (auto dest: parseNumbers_nonneg)
  have run: "running p a op b (nat b) ?s0"
    using ticks_running [OF assms(1,2), of "nat b"] by simp
  then have H: "messageHistory ?s0 = ?H"
    by (simp add: running_def butlast_demo_narration)
  note A = last_tick [OF assms(1,2) run, unfolded H, folded assms(3)]
  have oA: "outbox ?s1 = emitted p (messageHistory ?s1)" using A by simp
  note B = final_message_timer [of ?s1 p r ?H, OF _ _ oA]
  have B': "props ?s2 = p \<and> isDemoComplete ?s2 \<and> demoStep ?s2 = Suc (nat b) \<and>
      messageHistory ?s2 = ?H @ [final_message a op b, completion_message (problem p) r] \<and>
      timers ?s2 = [(500, Completion r ?H)] \<and>
      outbox ?s2 = emitted p (messageHistory ?s2)"
    using A B by simp
  note C = completion_timer [of ?s2 p r ?H]
  have C': "timers ?s3 = [] \<and> isDemoComplete ?s3 \<and> demoStep ?s3 = Suc (nat b) \<and>
      messageHistory ?s3 = ?H @ [final_message a op b, completion_message (problem p) r] \<and>
      outbox ?s3 = emitted p (messageHistory ?s3) @ [Answer r ?H]
         @ (if onDemoComplete p then [DemoCompleted] else [])"
    using B' C by simp
  have f: "final = ?s3"
    using run_timers_add [of "nat b" 3 "mount p"] run_timers_add [of 1 2 ?s0]
      run_timers_add [of 1 1 ?s1]
    by (simp add: assms(4) numeral_3_eq_3 numeral_2_eq_2)
  have n: "demo_narration a op b = butlast (demo_narration a op b) @ [final_message a op b]"
    by (simp add: demo_narration_def butlast_append)
  have h: "messageHistory final
      = prologue p @ demo_narration a op b @ [completion_message (problem p) r]"
    using C' n by (simp add: f)
  have ne: "?H \<noteq> messageHistory final"
    using C' by (simp add: f)
  from C' h ne length_demo_narration [OF b0] show ?thesis
    by (simp add: f)
qed

text \<open>
  The demonstration of \<open>"4 + 2"\<close>: six messages are collected, and \<open>onAnswer\<close> receives the
  result 6 with the first four of them.
\<close>

theorem demo_run_witness:
  "messageHistory (run_timers 5 (mount demo_props)) =
     [js ''Watch as I demonstrate the solution step by step!'',
      js ''Let's start at 4! '' @ glyph_point_left,
      js ''Now let's add 2 step by step...'',
      js ''Step 2: Moving to 6... '' @ glyph_right,
      glyph_party @ js '' Done! 4 + 2 = 6'',
      glyph_check @ js '' Great job! We successfully solved 4 + 2 and got 6!'']
   \<and> Answer 6
        [js ''Watch as I demonstrate the solution step by step!'',
         js ''Let's start at 4! '' @ glyph_point_left,
         js ''Now let's add 2 step by step...'',
         js ''Step 2: Moving to 6... '' @ glyph_right]
       \<in> set (outbox (run_timers 5 (mount demo_props)))
   \<and> timers (run_timers 5 (mount demo_props)) = []"
proof -
  have p: "parseNumbers (problem demo_props) = Some (4, 2, cu CHR ''+'')"
    by (simp add: demo_props_def parseNumbers_def match_at_def is_digit_def is_space_def
        nat_of_digits_def digit_val_def js_def cu_def)
  have m: "demoMode demo_props" by (simp add: demo_props_def)
  have r: "6 = demo_result 4 (cu CHR ''+'') 2" by (simp add: demo_result_def)
  have f: "run_timers 5 (mount demo_props) = run_timers (nat 2 + 3) (mount demo_props)"
    by simp
  have n: "demo_narration 4 (cu CHR ''+'') 2 =
     [js ''Let's start at 4! '' @ glyph_point_left,
      js ''Now let's add 2 step by step...'',
      js ''Step 2: Moving to 6... '' @ glyph_right,
      glyph_party @ js '' Done! 4 + 2 = 6'']"
    by (simp add: demo_narration_def start_message_def step_message_def final_message_def
        demo_result_def step_of_def show_int_def show_nat_small digit_char_def upt_rec
        js_def cu_def)
  have c: "completion_message (problem demo_props) 6
      = glyph_check @ js '' Great job! We successfully solved 4 + 2 and got 6!''"
    by (simp add: completion_message_def demo_props_def show_int_def show_nat_small
        digit_char_def js_def)
  have o: "prologue demo_props = [js ''Watch as I demonstrate the solution step by step!'']"
    by (simp add: prologue_def demo_props_def)
  from demo_run [OF p m r f] show ?thesis
    unfolding n c o by simp
qed


end
